theory Spec2Isabelle
  imports Main "HOL-Library.Word"
begin

unbundle bit_operations_syntax

section \<open>Data model of pkg/proc/stack.go\<close>

text \<open>
  Go's \<open>uint64\<close> and \<open>int64\<close> are both 64-bit words; the conversions
  \<open>uint64(x)\<close> and \<open>int64(x)\<close> keep the bits, so both types are \<open>64 word\<close>:
  \<open>+\<close> wraps, \<open>\<le>\<close> and \<open><\<close> on words are the unsigned comparisons of
  \<open>uint64\<close>, and \<open>sint\<close> reads the two's complement value where the code
  compares an \<open>int64\<close>.
\<close>

type_synonym uint64 = "64 word"
type_synonym int64 = "64 word"
type_synonym byte = "8 word"

datatype error =
    NullAddrError
  | ErrCFAUndefined uint64 "error option"
  | ErrUndefinedReturnAddress uint64
  | ErrArchitecturalRule
  | ErrNilGoroutine
  | ErrLRNil
  | ErrNegativeDepth
  | errSPDecreased
  | ErrNonMonotonicSP
  | ErrNoRangeParent
  | ErrIncompleteRangeFunc
  | ErrExternal string

text \<open>A Go panic (nil dereference, index out of range) aborts the whole call.\<close>

datatype 'a outcome = Panic | Ok 'a

record DwarfRegister =
  Uint64Val :: uint64
  Bytes :: "byte list option"

datatype ByteOrder = LittleEndian | BigEndian

text \<open>
  \<open>op.DwarfRegisters\<close>: the register file is a slice of pointers indexed by
  DWARF register number, \<open>nil\<close> where a register is absent; it is a map here.
  The lazy loading hook and the write-back hook of the register file play no
  part in unwinding and are left out.
\<close>

record DwarfRegisters =
  StaticBase :: uint64
  CFA :: int64
  FrameBase :: int64
  ByteOrder :: "ByteOrder option"
  regfile :: "uint64 \<Rightarrow> DwarfRegister option"
  PCRegNum :: uint64
  SPRegNum :: uint64
  BPRegNum :: uint64
  LRRegNum :: uint64

definition zeroDwarfRegisters :: DwarfRegisters where
  "zeroDwarfRegisters =
     \<lparr>StaticBase = 0, CFA = 0, FrameBase = 0, ByteOrder = None,
      regfile = (\<lambda>_. None), PCRegNum = 0, SPRegNum = 0, BPRegNum = 0, LRRegNum = 0\<rparr>"

definition DwarfRegisterFromUint64 :: "uint64 \<Rightarrow> DwarfRegister" where
  "DwarfRegisterFromUint64 v = \<lparr>Uint64Val = v, Bytes = None\<rparr>"

definition regsReg :: "DwarfRegisters \<Rightarrow> uint64 \<Rightarrow> DwarfRegister option" where
  "regsReg rs i = regfile rs i"

definition regsUint64Val :: "DwarfRegisters \<Rightarrow> uint64 \<Rightarrow> uint64" where
  "regsUint64Val rs i = (case regsReg rs i of None \<Rightarrow> 0 | Some r \<Rightarrow> Uint64Val r)"

definition regsPC :: "DwarfRegisters \<Rightarrow> uint64" where
  "regsPC rs = regsUint64Val rs (PCRegNum rs)"

definition regsSP :: "DwarfRegisters \<Rightarrow> uint64" where
  "regsSP rs = regsUint64Val rs (SPRegNum rs)"

definition regsBP :: "DwarfRegisters \<Rightarrow> uint64" where
  "regsBP rs = regsUint64Val rs (BPRegNum rs)"

definition AddReg :: "DwarfRegisters \<Rightarrow> uint64 \<Rightarrow> DwarfRegister option \<Rightarrow> DwarfRegisters" where
  "AddReg rs i r = rs\<lparr>regfile := (regfile rs)(i := r)\<rparr>"

text \<open>
  Writing through the pointer returned by \<open>Reg\<close>
  (\<open>regs.Reg(n).Uint64Val = v\<close>): a nil pointer panics, otherwise only the
  \<open>Uint64Val\<close> field of the register changes.
\<close>

definition setRegUint64Val :: "DwarfRegisters \<Rightarrow> uint64 \<Rightarrow> uint64 \<Rightarrow> DwarfRegisters outcome" where
  "setRegUint64Val rs i v =
     (case regsReg rs i of
        None \<Rightarrow> Panic
      | Some r \<Rightarrow> Ok (rs\<lparr>regfile := (regfile rs)(i := Some (r\<lparr>Uint64Val := v\<rparr>))\<rparr>))"

record compileUnit =
  cuName :: string
  lineInfoPresent :: bool
  imageStripped :: bool
  cuOptimized :: bool

record Function =
  Name :: string
  Entry :: uint64
  End :: uint64
  offset :: nat
  cu :: compileUnit

record Location =
  PC :: uint64
  File :: string
  Line :: int
  Fn :: "Function option"

definition zeroLocation :: Location where
  "zeroLocation = \<lparr>PC = 0, File = [], Line = 0, Fn = None\<rparr>"

text \<open>
  A \<open>Defer\<close>. The \<open>link\<close> pointer is created by \<open>load\<close> as an unloaded node
  that only knows the address of its \<open>_defer\<close> variable; it is that address
  here (\<open>None\<close> for nil), and \<open>Next\<close> loads the node from it.
\<close>

datatype Defer = Defer
  (DwrapPC: uint64)
  (DeferPC: uint64)
  (SP: uint64)
  (link: "uint64 option")
  (argSz: int64)
  (rangefunc: "Defer list")
  (variable: uint64)
  (Unreadable: "error option")

record Stackframe =
  Current :: Location
  Call :: Location
  Regs :: DwarfRegisters
  stackHi :: uint64
  Ret :: uint64
  Err :: "error option"
  SystemStack :: bool
  Inlined :: bool
  hasInlines :: bool
  Bottom :: bool
  lastpc :: uint64
  closurePtr :: int64
  TopmostDefer :: "Defer option"
  Defers :: "Defer list"

definition zeroStackframe :: Stackframe where
  "zeroStackframe =
     \<lparr>Current = zeroLocation, Call = zeroLocation, Regs = zeroDwarfRegisters,
      stackHi = 0, Ret = 0, Err = None, SystemStack = False, Inlined = False,
      hasInlines = False, Bottom = False, lastpc = 0, closurePtr = 0,
      TopmostDefer = None, Defers = []\<rparr>"

text \<open>
  The goroutine handle \<open>G\<close>, with the fields the unwinder reads.
  \<open>gThread\<close> is \<open>g.Thread\<close>: absent when nil, else what
  \<open>g.Thread.Registers()\<close> gives, already converted by
  \<open>Arch.RegistersToDwarfRegisters\<close>. \<open>gDefer\<close> is what \<open>g.Defer()\<close> returns.
\<close>

record G =
  gID :: int64
  gPC :: uint64
  gSP :: uint64
  gBP :: uint64
  gLR :: uint64
  stack_lo :: uint64
  stack_hi :: uint64
  gSystemStack :: bool
  gThread :: "(error + DwarfRegisters) option"
  gDefer :: "Defer option"

type_synonym StacktraceOptions = "16 word"

definition StacktraceReadDefers :: StacktraceOptions where "StacktraceReadDefers = 1"
definition StacktraceSimple :: StacktraceOptions where "StacktraceSimple = 2"
definition StacktraceG :: StacktraceOptions where "StacktraceG = 4"

record stackIterator =
  pc :: uint64
  top_frame :: bool
  atend :: bool
  sigret :: bool
  frame :: Stackframe
  target_present :: bool
  err :: "error option"
  stackhi :: uint64
  systemstack :: bool
  regs :: DwarfRegisters
  g :: "G option"
  g0_sched_sp :: uint64
  g0_sched_sp_loaded :: bool
  count :: int
  opts :: StacktraceOptions

subsection \<open>DWARF call frame rules\<close>

datatype Rule =
    RuleUndefined | RuleSameVal | RuleOffset | RuleValOffset | RuleRegister
  | RuleExpression | RuleValExpression | RuleArchitectural | RuleCFA
  | RuleFramePointer | RuleUnknown

record DWRule =
  Rule :: Rule
  Reg :: uint64
  Offset :: int64
  Expression :: "byte list"

text \<open>
  \<open>frame.FrameContext\<close>. \<open>Regs\<close> is a Go map from register number to rule;
  the code ranges over it in an unspecified order, so it is an association
  list here, ranged over in list order.
\<close>

record FrameContext =
  ctxCFA :: DWRule
  ctxRegs :: "(uint64 \<times> DWRule) list"
  RetAddrReg :: uint64

subsection \<open>The collaborators of the unwinder\<close>

text \<open>
  The memory of the target, the symbol table, the DWARF reader and the
  architecture description are supplied to the unwinder; their code is not
  part of stack.go, so each is a field of the environment below.
  \<^item> \<open>ReadMemory n addr\<close> is \<open>mem.ReadMemory(buf, addr)\<close> on a fresh buffer of
    \<open>n\<close> bytes: the bytes written and the error.
  \<^item> \<open>frameContextAt pc\<close> is the frame context for \<open>pc\<close> after the FDE
    lookup and \<open>Arch.fixFrameUnwindContext\<close>.
  \<^item> \<open>ExecuteStackProgram regs expr\<close> is \<open>op.ExecuteStackProgram\<close>.
  \<^item> \<open>getDwarfTree fn\<close> is \<open>fn.cu.image.getDwarfTree(fn.offset)\<close>, the tree
    named by a number; \<open>InlineStack tree pc\<close> is \<open>reader.InlineStack\<close>, each
    entry with its name, call file, call line (absent when the attribute has
    not the expected type) and offset.
  \<^item> \<open>locationFrameBase tree pc regs\<close> is the \<open>DW_AT_frame_base\<close> location,
    \<open>readClosurePtr tree regs\<close> is \<open>readLocalPtrVar\<close> for \<open>.closureptr\<close>.
  \<^item> \<open>g0SchedSP g\<close> is the \<open>SP\<close> of \<open>g.m.g0\<close> when every step of reading
    it succeeds; \<open>rangeParent fn\<close> is \<open>fn.extra(bi).rangeParent\<close>;
    \<open>rangeBodyClosures fr\<close> are the funcval addresses of the function-kinded
    range-body closure variables in scope in frame \<open>fr\<close>.
  \<^item> \<open>producerAfterGo119\<close> says that the producer string is not empty and
    names Go 1.19 or later; \<open>goosLinux\<close> is \<open>runtime.GOOS == "linux"\<close>.
  Structs are copied by value: a write to a register of the iterator is not
  seen through a frame delivered earlier.
\<close>

record InlineEntry =
  entName :: "string option"
  entCallFile :: "int option"
  entCallLine :: "int option"
  entOffset :: nat

record BinaryInfo =
  ReadMemory :: "nat \<Rightarrow> uint64 \<Rightarrow> byte list \<times> error option"
  readUintRaw :: "uint64 \<Rightarrow> nat \<Rightarrow> uint64 \<times> error option"
  readIntRaw :: "uint64 \<Rightarrow> nat \<Rightarrow> int64 \<times> error option"
  frameContextAt :: "uint64 \<Rightarrow> FrameContext"
  ExecuteStackProgram :: "DwarfRegisters \<Rightarrow> byte list \<Rightarrow> error + int64"
  DwarfRegisterFromBytes :: "byte list \<Rightarrow> DwarfRegister"
  imageStaticBase :: "uint64 \<Rightarrow> uint64"
  PCToLine :: "uint64 \<Rightarrow> string \<times> int \<times> Function option"
  PCToFunc :: "uint64 \<Rightarrow> Function option"
  lineInfoPCToLine :: "Function \<Rightarrow> uint64 \<Rightarrow> string \<times> int"
  getDwarfTree :: "Function \<Rightarrow> error + nat"
  locationFrameBase :: "nat \<Rightarrow> uint64 \<Rightarrow> DwarfRegisters \<Rightarrow> int64"
  readClosurePtr :: "nat \<Rightarrow> DwarfRegisters \<Rightarrow> uint64"
  readSigtrampgoContext :: "stackIterator \<Rightarrow> error + DwarfRegisters"
  InlineStack :: "nat \<Rightarrow> uint64 \<Rightarrow> InlineEntry list"
  filePath :: "compileUnit \<Rightarrow> int \<Rightarrow> error + string"
  g0SchedSP :: "G \<Rightarrow> uint64 option"
  rangeParent :: "Function \<Rightarrow> Function option"
  rangeBodyClosures :: "Stackframe \<Rightarrow> uint64 list"
  producerAfterGo119 :: bool
  goosLinux :: bool
  usesLR :: bool
  ptrSize :: nat
  regSize :: "uint64 \<Rightarrow> nat"

text \<open>
  The buffer after a read: \<open>make([]byte, n)\<close> is zero filled and has exactly
  \<open>n\<close> bytes whatever the reader wrote.
\<close>

definition readBuf :: "BinaryInfo \<Rightarrow> nat \<Rightarrow> uint64 \<Rightarrow> byte list \<times> error option" where
  "readBuf bi n addr =
     (case ReadMemory bi n addr of (bs, e) \<Rightarrow> (take n (bs @ replicate n 0), e))"

text \<open>\<open>binary.LittleEndian\<close> decoding of a byte slice into a \<open>uint64\<close>.\<close>

fun le_uint64 :: "byte list \<Rightarrow> uint64" where
  "le_uint64 [] = 0"
| "le_uint64 (b # bs) = ucast b OR push_bit 8 (le_uint64 bs)"

definition readRegisterAt :: "BinaryInfo \<Rightarrow> uint64 \<Rightarrow> uint64 \<Rightarrow> DwarfRegister option \<times> error option" where
  "readRegisterAt bi regnum addr =
     (case readBuf bi (regSize bi regnum) addr of
        (buf, Some e) \<Rightarrow> (None, Some e)
      | (buf, None) \<Rightarrow> (Some (DwarfRegisterFromBytes bi buf), None))"

definition executeFrameRegRule ::
  "BinaryInfo \<Rightarrow> stackIterator \<Rightarrow> uint64 \<Rightarrow> DWRule \<Rightarrow> int64 \<Rightarrow> DwarfRegister option \<times> error option" where
  "executeFrameRegRule bi it regnum rule cfa =
     (case Rule rule of
        RuleUnknown \<Rightarrow> (None, None)
      | RuleUndefined \<Rightarrow> (None, None)
      | RuleSameVal \<Rightarrow>
          (case regsReg (regs it) regnum of
             None \<Rightarrow> (None, None)
           | Some reg \<Rightarrow> (Some reg, None))
      | RuleOffset \<Rightarrow> readRegisterAt bi regnum (cfa + Offset rule)
      | RuleValOffset \<Rightarrow> (Some (DwarfRegisterFromUint64 (cfa + Offset rule)), None)
      | RuleRegister \<Rightarrow> (regsReg (regs it) (Reg rule), None)
      | RuleExpression \<Rightarrow>
          (case ExecuteStackProgram bi (regs it) (Expression rule) of
             Inl e \<Rightarrow> (None, Some e)
           | Inr v \<Rightarrow> readRegisterAt bi regnum v)
      | RuleValExpression \<Rightarrow>
          (case ExecuteStackProgram bi (regs it) (Expression rule) of
             Inl e \<Rightarrow> (None, Some e)
           | Inr v \<Rightarrow> (Some (DwarfRegisterFromUint64 v), None))
      | RuleArchitectural \<Rightarrow> (None, Some ErrArchitecturalRule)
      | RuleCFA \<Rightarrow>
          (case regsReg (regs it) (Reg rule) of
             None \<Rightarrow> (None, None)
           | Some _ \<Rightarrow>
               (Some (DwarfRegisterFromUint64 (regsUint64Val (regs it) (Reg rule) + Offset rule)), None))
      | RuleFramePointer \<Rightarrow>
          (case regsReg (regs it) (Reg rule) of
             None \<Rightarrow> (None, None)
           | Some curReg \<Rightarrow>
               if Uint64Val curReg \<le> cfa then readRegisterAt bi regnum (Uint64Val curReg)
               else (Some curReg, None)))"


subsection \<open>advanceRegs\<close>

text \<open>
  One iteration of the loop over \<open>framectx.Regs\<close>. The state of the loop is
  the iterator (only \<open>it.err\<close> changes), the caller's registers, \<open>ret\<close> and
  \<open>retaddr\<close>.
\<close>

definition prevFrameIsSigpanic :: "stackIterator \<Rightarrow> bool" where
  "prevFrameIsSigpanic it =
     (case Fn (Call (frame it)) of None \<Rightarrow> False | Some f \<Rightarrow> Name f = ''runtime.sigpanic'')"

fun advanceRegsRule ::
  "BinaryInfo \<Rightarrow> FrameContext \<Rightarrow> uint64 \<times> DWRule \<Rightarrow>
   stackIterator \<times> DwarfRegisters \<times> uint64 \<times> uint64 \<Rightarrow>
   stackIterator \<times> DwarfRegisters \<times> uint64 \<times> uint64" where
  "advanceRegsRule bi framectx (i, regRule) (it, callFrameRegs, ret, retaddr) =
     (case executeFrameRegRule bi it i regRule (CFA (regs it)) of
        (reg, rerr) \<Rightarrow>
          if i = RetAddrReg framectx then
            (case reg of
               None \<Rightarrow>
                 (it\<lparr>err := Some (case rerr of
                                     None \<Rightarrow> ErrUndefinedReturnAddress (pc it)
                                   | Some e \<Rightarrow> e)\<rparr>,
                  AddReg callFrameRegs i reg, ret, CFA (regs it) + Offset regRule)
             | Some r \<Rightarrow>
                 if prevFrameIsSigpanic it \<and> usesLR bi then
                   (case readBuf bi 8 (CFA (regs it)) of
                      (buf, merr) \<Rightarrow>
                        ((case merr of None \<Rightarrow> it | Some e \<Rightarrow> it\<lparr>err := Some e\<rparr>),
                         AddReg callFrameRegs i reg, le_uint64 buf,
                         CFA (regs it) + Offset regRule))
                 else
                   (it, AddReg callFrameRegs i reg, Uint64Val r,
                    CFA (regs it) + Offset regRule))
          else (it, AddReg callFrameRegs i reg, ret, retaddr))"

fun advanceRegsLoop ::
  "BinaryInfo \<Rightarrow> FrameContext \<Rightarrow> (uint64 \<times> DWRule) list \<Rightarrow>
   stackIterator \<times> DwarfRegisters \<times> uint64 \<times> uint64 \<Rightarrow>
   stackIterator \<times> DwarfRegisters \<times> uint64 \<times> uint64" where
  "advanceRegsLoop bi framectx [] st = st"
| "advanceRegsLoop bi framectx (x # xs) st =
     advanceRegsLoop bi framectx xs (advanceRegsRule bi framectx x st)"

text \<open>
  \<open>advanceRegs\<close> returns the caller's registers, \<open>ret\<close> and \<open>retaddr\<close>; it
  also stores the CFA in \<open>it.regs\<close> and may set \<open>it.err\<close>, so the iterator
  is returned too.
\<close>

definition advanceRegs ::
  "BinaryInfo \<Rightarrow> stackIterator \<Rightarrow> stackIterator \<times> DwarfRegisters \<times> uint64 \<times> uint64" where
  "advanceRegs bi it =
     (let framectx = frameContextAt bi (pc it) in
      case executeFrameRegRule bi it 0 (ctxCFA framectx) 0 of
        (None, cerr) \<Rightarrow>
          (it\<lparr>err := Some (ErrCFAUndefined (pc it) cerr)\<rparr>, zeroDwarfRegisters, 0, 0)
      | (Some cfareg, cerr) \<Rightarrow>
          (let it1 = it\<lparr>regs := (regs it)\<lparr>CFA := Uint64Val cfareg\<rparr>\<rparr>;
               callFrameRegs =
                 AddReg
                   (zeroDwarfRegisters
                      \<lparr>StaticBase := imageStaticBase bi (pc it1),
                       ByteOrder := ByteOrder (regs it1),
                       PCRegNum := PCRegNum (regs it1),
                       SPRegNum := SPRegNum (regs it1),
                       BPRegNum := BPRegNum (regs it1),
                       LRRegNum := LRRegNum (regs it1)\<rparr>)
                   (SPRegNum (regs it1)) (Some cfareg)
           in case advanceRegsLoop bi framectx (ctxRegs framectx) (it1, callFrameRegs, 0, 0) of
                (it2, callFrameRegs', ret, retaddr) \<Rightarrow>
                  (it2, callFrameRegs',
                   (if usesLR bi \<and> ret = 0 \<and> regsReg (regs it2) (LRRegNum (regs it2)) \<noteq> None
                    then regsUint64Val (regs it2) (LRRegNum (regs it2))
                    else ret),
                   retaddr)))"


subsection \<open>The stack iterator\<close>

definition frameBase :: "BinaryInfo \<Rightarrow> stackIterator \<Rightarrow> Function \<Rightarrow> int64" where
  "frameBase bi it fn =
     (if imageStripped (cu fn) then 0
      else case getDwarfTree bi fn of
             Inl e \<Rightarrow> 0
           | Inr dwarfTree \<Rightarrow> locationFrameBase bi dwarfTree (pc it) (regs it))"

text \<open>
  \<open>newStackframe\<close> sets \<open>it.err\<close> or \<open>it.regs.FrameBase\<close>, so it returns the
  iterator with the frame.
\<close>

definition newStackframe ::
  "BinaryInfo \<Rightarrow> stackIterator \<Rightarrow> uint64 \<Rightarrow> uint64 \<Rightarrow> stackIterator \<times> Stackframe" where
  "newStackframe bi it ret retaddr =
     (if retaddr = 0 then (it\<lparr>err := Some NullAddrError\<rparr>, zeroStackframe)
      else
        case PCToLine bi (pc it) of
          (f0, l0, fn) \<Rightarrow>
            let f = (case fn of None \<Rightarrow> ''?'' | Some _ \<Rightarrow> f0);
                l = (case fn of None \<Rightarrow> - 1 | Some _ \<Rightarrow> l0);
                it1 = (case fn of
                         None \<Rightarrow> it
                       | Some fn' \<Rightarrow> it\<lparr>regs := (regs it)\<lparr>FrameBase := frameBase bi it fn'\<rparr>\<rparr>);
                r0 = zeroStackframe
                       \<lparr>Current := \<lparr>PC = pc it1, File = f, Line = l, Fn = fn\<rparr>,
                        Regs := regs it1, Ret := ret, stackHi := stackhi it1,
                        SystemStack := systemstack it1, lastpc := pc it1\<rparr>;
                r1 = (if regsReg (Regs r0) (PCRegNum (regs it1)) = None
                      then r0\<lparr>Regs := AddReg (Regs r0) (PCRegNum (regs it1))
                                          (Some (DwarfRegisterFromUint64 (pc it1)))\<rparr>
                      else r0);
                r2 = r1\<lparr>Call := Current r1\<rparr>;
                r3 = (case Fn (Current r2) of
                        None \<Rightarrow> r2
                      | Some cfn \<Rightarrow>
                          if \<not> top_frame it1 \<and> pc it1 \<noteq> Entry cfn \<and> \<not> sigret it1 then
                            (if Name cfn = ''runtime.mstart'' \<or> Name cfn = ''runtime.systemstack_switch''
                             then r2
                             else
                               case lineInfoPCToLine bi cfn (pc it1 - 1) of
                                 (cf, cl) \<Rightarrow>
                                   r2\<lparr>lastpc := pc it1 - 1,
                                      Call := (Call r2)\<lparr>File := cf, Line := cl\<rparr>\<rparr>)
                          else r2);
                r4 = (case (fn, g it1) of
                        (Some fn', Some gg) \<Rightarrow>
                          if \<not> imageStripped (cu fn') \<and> \<not> SystemStack r3 then
                            (case getDwarfTree bi fn' of
                               Inl e \<Rightarrow> r3
                             | Inr dwarfTree \<Rightarrow>
                                 let c = readClosurePtr bi dwarfTree (Regs r3) in
                                 if c \<noteq> 0 then
                                   (if stack_lo gg \<le> c \<and> c < stack_hi gg
                                    then r3\<lparr>closurePtr := c - stack_hi gg\<rparr>
                                    else r3\<lparr>closurePtr := c\<rparr>)
                                 else r3)
                          else r3
                      | _ \<Rightarrow> r3)
            in (it1, r4))"

text \<open>
  \<open>switchToGoroutineStack\<close> returns the iterator as the code leaves it and the
  error, if any; writing \<open>SP\<close> through a nil register panics.
\<close>

definition switchToGoroutineStack ::
  "BinaryInfo \<Rightarrow> stackIterator \<Rightarrow> (stackIterator \<times> error option) outcome" where
  "switchToGoroutineStack bi it =
     (case g it of
        None \<Rightarrow> Ok (it, Some ErrNilGoroutine)
      | Some gg \<Rightarrow>
          let it1 = it\<lparr>systemstack := False, top_frame := False, pc := gPC gg\<rparr> in
          case setRegUint64Val (regs it1) (SPRegNum (regs it1)) (gSP gg) of
            Panic \<Rightarrow> Panic
          | Ok rs1 \<Rightarrow>
              let rs2 = AddReg rs1 (BPRegNum rs1) (Some (DwarfRegisterFromUint64 (gBP gg)));
                  it2 = it1\<lparr>regs := rs2\<rparr>
              in if usesLR bi then
                   (case regsReg rs2 (LRRegNum rs2) of
                      None \<Rightarrow> Ok (it2, Some ErrLRNil)
                    | Some lrReg \<Rightarrow>
                        Ok (it2\<lparr>regs := AddReg rs2 (LRRegNum rs2)
                                              (Some (lrReg\<lparr>Uint64Val := gLR gg\<rparr>))\<rparr>, None))
                 else Ok (it2, None))"

text \<open>
  \<open>Arch.switchStack\<close> is a function-valued field of the architecture: it
  receives the iterator and the caller's registers, may change both, and
  answers whether the stack was switched.
\<close>

type_synonym switchStackFn =
  "stackIterator \<Rightarrow> DwarfRegisters \<Rightarrow> (bool \<times> stackIterator \<times> DwarfRegisters) outcome"

text \<open>
  The signal trampoline hop of \<open>Next\<close>: \<open>Some\<close> of the iterator after the hop
  when the context was read, \<open>None\<close> when \<open>Next\<close> goes on.
\<close>

definition sigtrampHop :: "BinaryInfo \<Rightarrow> stackIterator \<Rightarrow> stackIterator option" where
  "sigtrampHop bi it =
     (case Fn (Current (frame it)) of
        None \<Rightarrow> None
      | Some fn \<Rightarrow>
          if Name fn = ''runtime.sigtrampgo'' \<and> target_present it then
            (case readSigtrampgoContext bi it of
               Inl e \<Rightarrow> None
             | Inr rs0 \<Rightarrow>
                 let rs = rs0\<lparr>StaticBase := imageStaticBase bi (regsPC rs0)\<rparr>;
                     it1 = it\<lparr>pc := regsPC rs, regs := rs, top_frame := False\<rparr>
                 in Some (case g it1 of
                            None \<Rightarrow> it1
                          | Some gg \<Rightarrow>
                              if gID gg \<noteq> 0
                              then it1\<lparr>systemstack :=
                                         \<not> (stack_lo gg \<le> regsSP (regs it1) \<and> regsSP (regs it1) < stack_hi gg)\<rparr>
                              else it1))
          else None)"

definition frameIsSigpanic :: "Stackframe \<Rightarrow> bool" where
  "frameIsSigpanic fr =
     (case Fn (Current fr) of None \<Rightarrow> False | Some f \<Rightarrow> Name f = ''runtime.sigpanic'')"

definition Next :: "BinaryInfo \<Rightarrow> switchStackFn \<Rightarrow> stackIterator \<Rightarrow> (bool \<times> stackIterator) outcome" where
  "Next bi sw it =
     (if err it \<noteq> None \<or> atend it then Ok (False, it)
      else
        case advanceRegs bi it of
          (it1, callFrameRegs, ret, retaddr) \<Rightarrow>
            case newStackframe bi it1 ret retaddr of
              (it2, fr) \<Rightarrow>
                let it3 = it2\<lparr>frame := fr\<rparr> in
                case sigtrampHop bi it3 of
                  Some it4 \<Rightarrow> Ok (True, it4)
                | None \<Rightarrow>
                    (case (if opts it3 AND StacktraceSimple = 0 then sw it3 callFrameRegs
                           else Ok (False, it3, callFrameRegs)) of
                       Panic \<Rightarrow> Panic
                     | Ok (switched, it4, callFrameRegs') \<Rightarrow>
                         if switched then Ok (True, it4)
                         else if Ret (frame it4) \<le> 0 then Ok (True, it4\<lparr>atend := True\<rparr>)
                         else Ok (True, it4\<lparr>sigret := frameIsSigpanic (frame it4),
                                              top_frame := False,
                                              pc := Ret (frame it4),
                                              regs := callFrameRegs'\<rparr>)))"

text \<open>\<open>Frame\<close> stores \<open>Bottom\<close> in \<open>it.frame\<close> and returns a copy.\<close>

definition Frame :: "stackIterator \<Rightarrow> stackIterator \<times> Stackframe" where
  "Frame it =
     (let it1 = it\<lparr>frame := (frame it)\<lparr>Bottom := atend it\<rparr>\<rparr> in (it1, frame it1))"

subsection \<open>Inline expansion\<close>

text \<open>
  A callback is a closure over mutable variables of its caller: it is a
  function from those variables and the frame to the new variables and the
  boolean it returns.
\<close>

type_synonym 's callback = "'s \<Rightarrow> Stackframe \<Rightarrow> 's \<times> bool"

definition inlineFrame :: "Stackframe \<Rightarrow> Function \<Rightarrow> Stackframe" where
  "inlineFrame fr inlfn =
     zeroStackframe
       \<lparr>Current := Current fr,
        Call := \<lparr>PC = PC (Call fr), File = File (Call fr), Line = Line (Call fr), Fn = Some inlfn\<rparr>,
        Regs := Regs fr,
        stackHi := stackHi fr,
        Ret := Ret fr,
        Err := Err fr,
        SystemStack := SystemStack fr,
        Inlined := True,
        lastpc := lastpc fr,
        closurePtr := closurePtr fr\<rparr>"

text \<open>
  The loop over \<open>reader.InlineStack\<close>; \<open>break\<close> leaves the loop with the
  frame as it is then. The callback's answer is dropped for synthetic frames.
\<close>

fun inlineLoop ::
  "BinaryInfo \<Rightarrow> 's callback \<Rightarrow> InlineEntry list \<Rightarrow> stackIterator \<times> 's \<times> Stackframe \<Rightarrow>
   (stackIterator \<times> 's \<times> Stackframe) outcome" where
  "inlineLoop bi cb [] st = Ok st"
| "inlineLoop bi cb (entry # entries) (it, s, fr0) =
     (let fr = fr0\<lparr>hasInlines := True\<rparr> in
      case (entName entry, entCallFile entry, entCallLine entry) of
        (Some fnname, Some fileidx, Some line) \<Rightarrow>
          (case Fn (Current fr) of
             None \<Rightarrow> Panic
           | Some curfn \<Rightarrow>
               (case filePath bi (cu curfn) fileidx of
                  Inl e \<Rightarrow> Ok (it, s, fr)
                | Inr filepath \<Rightarrow>
                    (case Fn (Call fr) of
                       None \<Rightarrow> Panic
                     | Some callfn \<Rightarrow>
                         let inlfn = \<lparr>Name = fnname, Entry = Entry callfn, End = End callfn,
                                      offset = entOffset entry, cu = cu callfn\<rparr>;
                             it1 = it\<lparr>count := count it + 1\<rparr>;
                             s1 = fst (cb s (inlineFrame fr inlfn));
                             fr1 = fr\<lparr>Call := (Call fr)\<lparr>File := filepath, Line := line\<rparr>\<rparr>
                         in inlineLoop bi cb entries (it1, s1, fr1))))
      | _ \<Rightarrow> Ok (it, s, fr))"

definition deliverFrame ::
  "'s callback \<Rightarrow> stackIterator \<Rightarrow> 's \<Rightarrow> Stackframe \<Rightarrow> stackIterator \<times> 's \<times> bool" where
  "deliverFrame cb it s fr =
     (case cb s fr of (s', again) \<Rightarrow> (it\<lparr>count := count it + 1\<rparr>, s', again))"

definition appendInlineCalls ::
  "BinaryInfo \<Rightarrow> 's callback \<Rightarrow> stackIterator \<Rightarrow> 's \<Rightarrow> Stackframe \<Rightarrow>
   (stackIterator \<times> 's \<times> bool) outcome" where
  "appendInlineCalls bi cb it s fr =
     (case Fn (Call fr) of
        None \<Rightarrow> Ok (deliverFrame cb it s fr)
      | Some callfn \<Rightarrow>
          if \<not> lineInfoPresent (cu callfn) then Ok (deliverFrame cb it s fr)
          else
            let callpc = (if count it > 0 then PC (Call fr) - 1 else PC (Call fr)) in
            case getDwarfTree bi callfn of
              Inl e \<Rightarrow> Ok (deliverFrame cb it s fr)
            | Inr dwarfTree \<Rightarrow>
                (case inlineLoop bi cb (InlineStack bi dwarfTree callpc) (it, s, fr) of
                   Panic \<Rightarrow> Panic
                 | Ok (it1, s1, fr1) \<Rightarrow> Ok (deliverFrame cb it1 s1 fr1)))"

subsection \<open>stacktraceFunc and stacktrace\<close>

text \<open>
  The loop \<open>for it.Next() { ... }\<close> need not end (the callback may ask for
  more frames for ever on a cyclic stack), so it takes fuel: \<open>None\<close> is the
  loop still running when the fuel is spent.
\<close>

fun stacktraceLoop ::
  "nat \<Rightarrow> BinaryInfo \<Rightarrow> switchStackFn \<Rightarrow> 's callback \<Rightarrow> stackIterator \<Rightarrow> 's \<Rightarrow>
   (stackIterator \<times> 's) outcome option" where
  "stacktraceLoop 0 bi sw cb it s = None"
| "stacktraceLoop (Suc fuel) bi sw cb it s =
     (case Next bi sw it of
        Panic \<Rightarrow> Some Panic
      | Ok (again, it1) \<Rightarrow>
          if \<not> again then Some (Ok (it1, s))
          else
            case Frame it1 of
              (it2, fr) \<Rightarrow>
                (case appendInlineCalls bi cb it2 s fr of
                   Panic \<Rightarrow> Some Panic
                 | Ok (it3, s', again) \<Rightarrow>
                     if again then stacktraceLoop fuel bi sw cb it3 s'
                     else Some (Ok (it3, s'))))"

definition stacktraceFunc ::
  "nat \<Rightarrow> BinaryInfo \<Rightarrow> switchStackFn \<Rightarrow> 's callback \<Rightarrow> stackIterator \<Rightarrow> 's \<Rightarrow>
   (stackIterator \<times> 's) outcome option" where
  "stacktraceFunc fuel bi sw cb it s =
     (if opts it AND StacktraceG \<noteq> 0 \<and> g it \<noteq> None then
        (case switchToGoroutineStack bi it of
           Panic \<Rightarrow> Some Panic
         | Ok (it1, Some e) \<Rightarrow> Some (Ok (it1\<lparr>err := Some e\<rparr>, s))
         | Ok (it1, None) \<Rightarrow> stacktraceLoop fuel bi sw cb (it1\<lparr>top_frame := True\<rparr>) s)
      else stacktraceLoop fuel bi sw cb it s)"

text \<open>The callback of \<open>stacktrace\<close>: its variable is the slice \<open>frames\<close>.\<close>

definition appendFrameUpTo :: "int \<Rightarrow> Stackframe list callback" where
  "appendFrameUpTo depth frames fr =
     (frames @ [fr], int (length (frames @ [fr])) < depth + 1)"

definition restartFromG :: "stackIterator \<Rightarrow> Stackframe list \<Rightarrow> bool" where
  "restartFromG it frames =
     (err it \<noteq> None \<and> length frames = 1 \<and> g it \<noteq> None \<and>
      (case frames of [] \<Rightarrow> False | fr # _ \<Rightarrow> SystemStack fr) \<and>
      opts it AND StacktraceSimple = 0)"

definition stacktraceResult :: "stackIterator \<Rightarrow> Stackframe list \<Rightarrow> error + Stackframe list" where
  "stacktraceResult it frames =
     (case err it of
        None \<Rightarrow> Inr frames
      | Some e \<Rightarrow>
          if length frames = 0 then Inl e
          else Inr (frames @ [zeroStackframe\<lparr>Err := Some e\<rparr>]))"

text \<open>
  \<open>stacktrace\<close>, for a \<open>depth\<close> below the largest \<open>int\<close>. The result is the
  iterator as the call leaves it and what the call returns.
\<close>

definition stacktrace ::
  "nat \<Rightarrow> BinaryInfo \<Rightarrow> switchStackFn \<Rightarrow> stackIterator \<Rightarrow> int \<Rightarrow>
   (stackIterator \<times> (error + Stackframe list)) outcome option" where
  "stacktrace fuel bi sw it depth =
     (if depth < 0 then Some (Ok (it, Inl ErrNegativeDepth))
      else
        case stacktraceFunc fuel bi sw (appendFrameUpTo depth) it [] of
          None \<Rightarrow> None
        | Some Panic \<Rightarrow> Some Panic
        | Some (Ok (it1, frames)) \<Rightarrow>
            if restartFromG it1 frames then
              (case stacktraceFunc fuel bi sw (appendFrameUpTo depth)
                      (it1\<lparr>err := None, opts := opts it1 OR StacktraceG\<rparr>) frames of
                 None \<Rightarrow> None
               | Some Panic \<Rightarrow> Some Panic
               | Some (Ok (it2, frames2)) \<Rightarrow> Some (Ok (it2, stacktraceResult it2 frames2)))
            else Some (Ok (it1, stacktraceResult it1 frames)))"

subsection \<open>The ARM64 architecture\<close>

definition arm64RegSize :: "uint64 \<Rightarrow> nat" where
  "arm64RegSize regnum = (if 64 \<le> regnum \<and> regnum \<le> 95 then 16 else 8)"

definition arm64cgocallSPOffsetSaveSlot :: uint64 where
  "arm64cgocallSPOffsetSaveSlot = 0x8"

definition prevG0schedSPOffsetSaveSlot :: uint64 where
  "prevG0schedSPOffsetSaveSlot = 0x10"

text \<open>
  The recurring step
  \<open>if err := it.switchToGoroutineStack(); err != nil { it.err = err; return false }; return true\<close>.
\<close>

definition switchToG :: "BinaryInfo \<Rightarrow> switchStackFn" where
  "switchToG bi it callFrameRegs =
     (case switchToGoroutineStack bi it of
        Panic \<Rightarrow> Panic
      | Ok (it1, Some e) \<Rightarrow> Ok (False, it1\<lparr>err := Some e\<rparr>, callFrameRegs)
      | Ok (it1, None) \<Rightarrow> Ok (True, it1, callFrameRegs))"

definition loadG0SchedSP :: "BinaryInfo \<Rightarrow> stackIterator \<Rightarrow> stackIterator" where
  "loadG0SchedSP bi it =
     (if g0_sched_sp_loaded it then it
      else
        let it1 = it\<lparr>g0_sched_sp_loaded := True\<rparr> in
        case g it1 of
          None \<Rightarrow> it1
        | Some gg \<Rightarrow>
            (case g0SchedSP bi gg of
               None \<Rightarrow> it1
             | Some sp \<Rightarrow> it1\<lparr>g0_sched_sp := sp\<rparr>))"

text \<open>The \<open>crosscall2\<close> case of the first switch.\<close>

definition arm64Crosscall2 :: "BinaryInfo \<Rightarrow> switchStackFn" where
  "arm64Crosscall2 bi it callFrameRegs =
     (let bpoff = (if producerAfterGo119 bi then 22 else 14);
          lroff = (if producerAfterGo119 bi then 23 else 15);
          sp = regsSP (regs it);
          newsp = fst (readUintRaw bi (sp + 8 * 24) (ptrSize bi));
          newbp = fst (readUintRaw bi (sp + 8 * bpoff) (ptrSize bi));
          newlr = fst (readUintRaw bi (sp + 8 * lroff) (ptrSize bi));
          rs1 = (case regsReg (regs it) (BPRegNum (regs it)) of
                   Some r \<Rightarrow> AddReg (regs it) (BPRegNum (regs it)) (Some (r\<lparr>Uint64Val := newbp\<rparr>))
                 | None \<Rightarrow>
                     AddReg (regs it) (BPRegNum (regs it))
                       (fst (readRegisterAt bi (BPRegNum (regs it)) (sp + 8 * bpoff))))
      in case setRegUint64Val rs1 (LRRegNum rs1) newlr of
           Panic \<Rightarrow> Panic
         | Ok rs2 \<Rightarrow>
             (case setRegUint64Val rs2 (SPRegNum rs2) (if goosLinux bi then newbp else newsp) of
                Panic \<Rightarrow> Panic
              | Ok rs3 \<Rightarrow> Ok (True, it\<lparr>regs := rs3, pc := newlr\<rparr>, callFrameRegs)))"

text \<open>The second switch, on the function that contains \<open>it.frame.Ret\<close>.\<close>

definition arm64SwitchStackCaller :: "BinaryInfo \<Rightarrow> switchStackFn" where
  "arm64SwitchStackCaller bi it callFrameRegs =
     (case PCToFunc bi (Ret (frame it)) of
        None \<Rightarrow> Ok (False, it, callFrameRegs)
      | Some fn \<Rightarrow>
          if Name fn = ''runtime.asmcgocall'' then
            (if \<not> systemstack it then Ok (False, it, callFrameRegs)
             else
               let off = fst (readIntRaw bi (regsSP callFrameRegs + arm64cgocallSPOffsetSaveSlot)
                                (ptrSize bi));
                   oldsp = regsSP callFrameRegs;
                   newsp = stackhi it - off
               in if newsp = oldsp then Ok (False, it, callFrameRegs)
                  else
                    (case setRegUint64Val callFrameRegs (SPRegNum callFrameRegs) newsp of
                       Panic \<Rightarrow> Panic
                     | Ok callFrameRegs' \<Rightarrow> Ok (False, it\<lparr>systemstack := False\<rparr>, callFrameRegs')))
          else if Name fn = ''runtime.cgocallback_gofunc'' \<or> Name fn = ''runtime.cgocallback'' then
            (if systemstack it then Ok (False, it, callFrameRegs)
             else
               let it1 = loadG0SchedSP bi it in
               if g0_sched_sp it1 \<le> 0 then Ok (False, it1, callFrameRegs)
               else
                 (case setRegUint64Val callFrameRegs (SPRegNum callFrameRegs) (g0_sched_sp it1) of
                    Panic \<Rightarrow> Panic
                  | Ok callFrameRegs' \<Rightarrow>
                      Ok (False,
                          it1\<lparr>g0_sched_sp :=
                                 fst (readUintRaw bi (regsSP callFrameRegs' + prevG0schedSPOffsetSaveSlot)
                                        (ptrSize bi)),
                              systemstack := True\<rparr>,
                          callFrameRegs')))
          else Ok (False, it, callFrameRegs))"

definition arm64SwitchStack :: "BinaryInfo \<Rightarrow> switchStackFn" where
  "arm64SwitchStack bi it callFrameRegs =
     (case Fn (Current (frame it)) of
        None \<Rightarrow>
          if systemstack it \<and> g it \<noteq> None \<and> top_frame it then switchToG bi it callFrameRegs
          else Ok (False, it, callFrameRegs)
      | Some fn \<Rightarrow>
          if (Name fn = ''runtime.cgocallback_gofunc'' \<or> Name fn = ''runtime.cgocallback'')
             \<and> goosLinux bi then
            (if top_frame it \<or> systemstack it then Ok (False, it, callFrameRegs)
             else
               let it1 = loadG0SchedSP bi it in
               if g0_sched_sp it1 \<le> 0 then Ok (False, it1, callFrameRegs)
               else
                 (case setRegUint64Val (regs it1) (SPRegNum callFrameRegs) (g0_sched_sp it1) of
                    Panic \<Rightarrow> Panic
                  | Ok rs \<Rightarrow>
                      let it2 = it1\<lparr>regs := rs\<rparr>;
                          it3 = it2\<lparr>g0_sched_sp :=
                                      fst (readUintRaw bi (regsSP (regs it2) + prevG0schedSPOffsetSaveSlot)
                                             (ptrSize bi)),
                                    top_frame := False\<rparr>
                      in case advanceRegs bi it3 of
                           (it4, callFrameRegs', ret, retaddr) \<Rightarrow>
                             (case newStackframe bi it4 ret retaddr of
                                (it5, frameOnSystemStack) \<Rightarrow>
                                  Ok (True,
                                      it5\<lparr>pc := Ret frameOnSystemStack, regs := callFrameRegs',
                                          systemstack := True\<rparr>,
                                      callFrameRegs))))
          else if Name fn = ''runtime.asmcgocall'' \<and> goosLinux bi then
            (if top_frame it \<or> \<not> systemstack it then Ok (False, it, callFrameRegs)
             else
               let off = fst (readIntRaw bi (regsSP (regs it) + arm64cgocallSPOffsetSaveSlot)
                                (ptrSize bi));
                   oldsp = regsSP (regs it);
                   newsp = stackhi it - off
               in case setRegUint64Val (regs it) (SPRegNum (regs it)) newsp of
                    Panic \<Rightarrow> Panic
                  | Ok rs \<Rightarrow>
                      let it1 = it\<lparr>regs := rs\<rparr> in
                      if regsSP (regs it1) = oldsp then Ok (False, it1, callFrameRegs)
                      else
                        let addrret = regsSP (regs it1) + of_nat (ptrSize bi * 3);
                            r = fst (readUintRaw bi addrret (ptrSize bi))
                        in Ok (True,
                               it1\<lparr>top_frame := False, systemstack := False,
                                   frame := (frame it1)\<lparr>Ret := r\<rparr>, pc := r\<rparr>,
                               callFrameRegs))
          else if Name fn = ''runtime.goexit'' \<or> Name fn = ''runtime.rt0_go'' then
            Ok (True, it\<lparr>atend := True\<rparr>, callFrameRegs)
          else if Name fn = ''runtime.mcall'' then
            (if systemstack it \<and> g it \<noteq> None then switchToG bi it callFrameRegs
             else Ok (True, it\<lparr>atend := True\<rparr>, callFrameRegs))
          else if Name fn = ''crosscall2'' then arm64Crosscall2 bi it callFrameRegs
          else if Name fn = ''runtime.mstart'' \<and> goosLinux bi then
            (case g it of
               None \<Rightarrow> Ok (False, it, callFrameRegs)
             | Some gg \<Rightarrow>
                 if top_frame it \<or> \<not> systemstack it then Ok (False, it, callFrameRegs)
                 else
                   (case PCToFunc bi (gPC gg) of
                      None \<Rightarrow> Ok (False, it, callFrameRegs)
                    | Some gfn \<Rightarrow>
                        if Name gfn \<noteq> ''runtime.systemstack_switch''
                        then Ok (False, it, callFrameRegs)
                        else switchToG bi it callFrameRegs))
          else if (Name fn = ''runtime.newstack'' \<or> Name fn = ''runtime.systemstack'')
                  \<and> systemstack it \<and> g it \<noteq> None then
            switchToG bi it callFrameRegs
          else arm64SwitchStackCaller bi it callFrameRegs)"

text \<open>
  The DWARF register numbers of AArch64 (\<open>x29\<close> is the frame pointer,
  \<open>x30\<close> the link register, then \<open>sp\<close> and \<open>pc\<close>), and
  \<open>arm64AddrAndStackRegsToDwarfRegisters\<close>.
\<close>

definition ARM64_BP :: uint64 where "ARM64_BP = 29"
definition ARM64_LR :: uint64 where "ARM64_LR = 30"
definition ARM64_SP :: uint64 where "ARM64_SP = 31"
definition ARM64_PC :: uint64 where "ARM64_PC = 32"

definition arm64AddrAndStackRegsToDwarfRegisters ::
  "uint64 \<Rightarrow> uint64 \<Rightarrow> uint64 \<Rightarrow> uint64 \<Rightarrow> uint64 \<Rightarrow> DwarfRegisters" where
  "arm64AddrAndStackRegsToDwarfRegisters staticBase pc0 sp bp lr =
     \<lparr>StaticBase = staticBase, CFA = 0, FrameBase = 0, ByteOrder = Some LittleEndian,
      regfile = (\<lambda>_. None)
        (ARM64_PC := Some (DwarfRegisterFromUint64 pc0),
         ARM64_SP := Some (DwarfRegisterFromUint64 sp),
         ARM64_BP := Some (DwarfRegisterFromUint64 bp),
         ARM64_LR := Some (DwarfRegisterFromUint64 lr)),
      PCRegNum = ARM64_PC, SPRegNum = ARM64_SP, BPRegNum = ARM64_BP, LRRegNum = ARM64_LR\<rparr>"

subsection \<open>Deferred calls\<close>

text \<open>
  What the variable evaluator yields for the \<open>_defer\<close> at an address:
  whether loading it failed; the \<open>fn\<close> field (of kind \<open>Func\<close> with its base,
  or a \<open>*funcval\<close> with the address it points to and the value of its \<open>fn\<close>
  field when readable); \<open>pc\<close>, \<open>sp\<close>, the optional \<open>siz\<close>; the address
  \<open>link\<close> points to; and the address the \<open>head.u.value\<close> chain points to,
  absent when a step of the chain is nil.
\<close>

record DeferVar =
  dvUnreadable :: "error option"
  dvFnIsFunc :: bool
  dvFnBase :: uint64
  dvFnAddr :: uint64
  dvFnValue :: "uint64 option"
  dvPC :: uint64
  dvSP :: uint64
  dvSiz :: "int64 option"
  dvLink :: uint64
  dvHead :: "uint64 option"

type_synonym deferReader = "uint64 \<Rightarrow> DeferVar"

definition maxRangeFuncDefers :: nat where
  "maxRangeFuncDefers = 10"

text \<open>\<open>&Defer{variable: v}\<close>: a node not loaded yet.\<close>

definition newDefer :: "uint64 \<Rightarrow> Defer" where
  "newDefer a = Defer 0 0 0 None 0 [] a None"

text \<open>
  \<open>load\<close> up to \<open>if canrecur\<close>; this is all of \<open>load(false)\<close>.
\<close>

definition loadFields :: "deferReader \<Rightarrow> Defer \<Rightarrow> Defer" where
  "loadFields dm d =
     (let v = dm (variable d) in
      case dvUnreadable v of
        Some e \<Rightarrow>
          Defer (DwrapPC d) (DeferPC d) (SP d) (link d) (argSz d) (rangefunc d) (variable d) (Some e)
      | None \<Rightarrow>
          Defer
            (if dvFnIsFunc v then dvFnBase v
             else if dvFnAddr v \<noteq> 0 then
               (case dvFnValue v of None \<Rightarrow> DwrapPC d | Some x \<Rightarrow> x)
             else DwrapPC d)
            (dvPC v)
            (dvSP v)
            (if dvLink v \<noteq> 0 then Some (dvLink v) else link d)
            (case dvSiz v of None \<Rightarrow> argSz d | Some n \<Rightarrow> n)
            (rangefunc d)
            (variable d)
            (Unreadable d))"

text \<open>
  The loop that fills \<open>d.rangefunc\<close>, from the node \<open>hd\<close> (\<open>hdefer\<close> here)
  and the slice so far.
\<close>

function rangefuncLoop :: "deferReader \<Rightarrow> Defer \<Rightarrow> Defer list \<Rightarrow> Defer list" where
  "rangefuncLoop dm hdefer rf =
     (let hdefer' = loadFields dm hdefer;
          rf' = rf @ [hdefer']
      in case link hdefer' of
           None \<Rightarrow> rf'
         | Some a \<Rightarrow>
             if length rf' > maxRangeFuncDefers then rf'
             else rangefuncLoop dm (newDefer a) rf')"
  by pat_completeness auto
termination
  by (relation "measure (\<lambda>(dm, hdefer, rf). Suc maxRangeFuncDefers - length rf)") auto

declare rangefuncLoop.simps [simp del]

definition load :: "deferReader \<Rightarrow> bool \<Rightarrow> Defer \<Rightarrow> Defer" where
  "load dm canrecur d =
     (let v = dm (variable d);
          d1 = loadFields dm d
      in if dvUnreadable v \<noteq> None then d1
         else if canrecur then
           (case dvHead v of
              None \<Rightarrow> d1
            | Some h \<Rightarrow>
                if h \<noteq> 0 then
                  Defer (DwrapPC d1) (DeferPC d1) (SP d1) (link d1) (argSz d1)
                    (rangefuncLoop dm (newDefer h) (rangefunc d1)) (variable d1) (Unreadable d1)
                else d1)
         else d1)"

definition setUnreadable :: "Defer \<Rightarrow> error \<Rightarrow> Defer" where
  "setUnreadable d e =
     Defer (DwrapPC d) (DeferPC d) (SP d) (link d) (argSz d) (rangefunc d) (variable d) (Some e)"

text \<open>\<open>(*Defer).Next\<close>, called \<open>deferNext\<close> here.\<close>

definition deferNext :: "deferReader \<Rightarrow> Defer \<Rightarrow> Defer option" where
  "deferNext dm d =
     (case link d of
        None \<Rightarrow> None
      | Some a \<Rightarrow>
          let l = load dm True (newDefer a) in
          Some (if SP l < SP d then setUnreadable l errSPDecreased else l))"

definition topdefer :: "Defer \<Rightarrow> Defer" where
  "topdefer d = (case rangefunc d of [] \<Rightarrow> d | x # _ \<Rightarrow> x)"

text \<open>
  The loop of \<open>readDefers\<close> over the frame index \<open>i\<close> and \<open>curdefer\<close>. A
  \<open>link\<close> chain that comes back to itself with equal \<open>SP\<close> keeps the loop
  running, so the loop takes fuel.
\<close>

fun readDefersLoop ::
  "nat \<Rightarrow> deferReader \<Rightarrow> Stackframe list \<Rightarrow> Defer option \<Rightarrow> nat \<Rightarrow> Stackframe list option" where
  "readDefersLoop 0 dm frames curdefer i = None"
| "readDefersLoop (Suc fuel) dm frames curdefer i =
     (case curdefer of
        None \<Rightarrow> Some frames
      | Some d \<Rightarrow>
          if i \<ge> length frames then Some frames
          else if Unreadable d \<noteq> None then
            Some (frames[i := (frames ! i)\<lparr>Defers := Defers (frames ! i) @ [d]\<rparr>])
          else if Err (frames ! i) \<noteq> None then Some frames
          else
            let frames1 =
                  (if TopmostDefer (frames ! i) = None
                   then frames[i := (frames ! i)\<lparr>TopmostDefer := Some (topdefer d)\<rparr>]
                   else frames)
            in if SystemStack (frames1 ! i) \<or> Inlined (frames1 ! i)
                  \<or> SP d \<ge> CFA (Regs (frames1 ! i))
               then readDefersLoop fuel dm frames1 curdefer (i + 1)
               else
                 readDefersLoop fuel dm
                   (frames1[i := (frames1 ! i)
                       \<lparr>Defers := Defers (frames1 ! i) @
                          (if length (rangefunc d) > 0 then rangefunc d else [d])\<rparr>])
                   (deferNext dm d) i)"

definition readDefers ::
  "nat \<Rightarrow> deferReader \<Rightarrow> Defer option \<Rightarrow> Stackframe list \<Rightarrow> Stackframe list option" where
  "readDefers fuel dm curdefer frames = readDefersLoop fuel dm frames curdefer 0"

subsection \<open>Goroutine stack traces\<close>

definition newStackIterator ::
  "bool \<Rightarrow> DwarfRegisters \<Rightarrow> uint64 \<Rightarrow> G option \<Rightarrow> StacktraceOptions \<Rightarrow> stackIterator" where
  "newStackIterator tgt rs stackhi0 g0 opts0 =
     \<lparr>pc = regsPC rs, top_frame = True, atend = False, sigret = False,
      frame = zeroStackframe, target_present = tgt, err = None, stackhi = stackhi0,
      systemstack = (case g0 of None \<Rightarrow> True | Some gg \<Rightarrow> gSystemStack gg),
      regs = rs, g = g0, g0_sched_sp = 0, g0_sched_sp_loaded = False, count = 0,
      opts = opts0\<rparr>"

text \<open>
  \<open>goroutineStackIterator\<close>, with \<open>Arch.addrAndStackRegsToDwarfRegisters\<close>
  passed as \<open>fromG\<close>.
\<close>

definition goroutineStackIterator ::
  "BinaryInfo \<Rightarrow> (uint64 \<Rightarrow> uint64 \<Rightarrow> uint64 \<Rightarrow> uint64 \<Rightarrow> uint64 \<Rightarrow> DwarfRegisters) \<Rightarrow>
   bool \<Rightarrow> G \<Rightarrow> StacktraceOptions \<Rightarrow> error + stackIterator" where
  "goroutineStackIterator bi fromG tgt gg opts0 =
     (case gThread gg of
        Some (Inl e) \<Rightarrow> Inl e
      | Some (Inr dwarfRegs) \<Rightarrow>
          Inr (newStackIterator tgt dwarfRegs (stack_hi gg) (Some gg) opts0)
      | None \<Rightarrow>
          Inr (newStackIterator tgt
                 (fromG (imageStaticBase bi (gPC gg)) (gPC gg) (gSP gg) (gBP gg) (gLR gg))
                 (stack_hi gg) (Some gg) opts0))"

definition GoroutineStacktrace ::
  "nat \<Rightarrow> BinaryInfo \<Rightarrow> switchStackFn \<Rightarrow>
   (uint64 \<Rightarrow> uint64 \<Rightarrow> uint64 \<Rightarrow> uint64 \<Rightarrow> uint64 \<Rightarrow> DwarfRegisters) \<Rightarrow> deferReader \<Rightarrow>
   bool \<Rightarrow> G \<Rightarrow> int \<Rightarrow> StacktraceOptions \<Rightarrow> (error + Stackframe list) outcome option" where
  "GoroutineStacktrace fuel bi sw fromG dm tgt gg depth opts0 =
     (case goroutineStackIterator bi fromG tgt gg opts0 of
        Inl e \<Rightarrow> Some (Ok (Inl e))
      | Inr it \<Rightarrow>
          (case stacktrace fuel bi sw it depth of
             None \<Rightarrow> None
           | Some Panic \<Rightarrow> Some Panic
           | Some (Ok (it', Inl e)) \<Rightarrow> Some (Ok (Inl e))
           | Some (Ok (it', Inr frames)) \<Rightarrow>
               if opts0 AND StacktraceReadDefers \<noteq> 0 then
                 (case readDefers fuel dm (gDefer gg) frames of
                    None \<Rightarrow> None
                  | Some frames' \<Rightarrow> Some (Ok (Inr frames')))
               else Some (Ok (Inr frames))))"

subsection \<open>Range-over-func stack traces\<close>

datatype Stage = startStage | normalStage | lastFrameStage | doneStage

text \<open>
  The variables the callback of \<open>rangeFuncStackTrace\<close> closes over. A panic
  inside the callback (an index into an empty \<open>frames\<close>, a nil \<open>rangeParent\<close>
  or \<open>Call.Fn\<close>) is recorded in \<open>rfPanicked\<close>: the callback then does nothing
  more and the call ends in \<open>Panic\<close>.
\<close>

record rangeFuncVars =
  rfFrames :: "Stackframe list"
  rfStage :: Stage
  rfAddRetFrame :: bool
  rfRangeParent :: "Function option"
  rfNonMonotonicSP :: bool
  rfClosurePtr :: int64
  rfPanicked :: bool

definition rangeFuncInit :: rangeFuncVars where
  "rangeFuncInit =
     \<lparr>rfFrames = [], rfStage = startStage, rfAddRetFrame = False, rfRangeParent = None,
      rfNonMonotonicSP = False, rfClosurePtr = 0, rfPanicked = False\<rparr>"

definition optimized :: "Function \<Rightarrow> bool" where
  "optimized fn = cuOptimized (cu fn)"

definition frameContains :: "Stackframe \<Rightarrow> int64 \<Rightarrow> bool" where
  "frameContains fr off =
     (let p = off + stackHi fr in regsSP (Regs fr) < p \<and> p \<le> CFA (Regs fr))"

definition appendFrame :: "rangeFuncVars \<Rightarrow> Stackframe \<Rightarrow> rangeFuncVars" where
  "appendFrame v fr =
     (let v1 = v\<lparr>rfFrames := rfFrames v @ [fr]\<rparr>;
          v2 = (if closurePtr fr \<noteq> 0 then v1\<lparr>rfClosurePtr := closurePtr fr\<rparr> else v1)
      in v2\<lparr>rfAddRetFrame := True\<rparr>)"

definition abortRangeFunc :: "rangeFuncVars \<Rightarrow> rangeFuncVars" where
  "abortRangeFunc v = v\<lparr>rfFrames := [], rfAddRetFrame := False, rfStage := doneStage\<rparr>"

text \<open>\<open>closurePtrOk\<close>: \<open>None\<close> is a panic.\<close>

definition closurePtrOk :: "BinaryInfo \<Rightarrow> rangeFuncVars \<Rightarrow> Stackframe \<Rightarrow> bool option" where
  "closurePtrOk bi v fr =
     (if SystemStack fr then Some False
      else
        case (if rfClosurePtr v = 0
              then (case Fn (Call fr) of None \<Rightarrow> None | Some fn \<Rightarrow> Some (optimized fn))
              else Some False) of
          None \<Rightarrow> None
        | Some True \<Rightarrow> Some True
        | Some False \<Rightarrow>
            if rfFrames v = [] then None
            else if Inlined (last (rfFrames v)) then Some True
            else if sint (rfClosurePtr v) < 0 then Some (frameContains fr (rfClosurePtr v))
            else Some (rfClosurePtr v \<in> set (rangeBodyClosures bi fr)))"

definition rangeFuncPanic :: "rangeFuncVars \<Rightarrow> rangeFuncVars \<times> bool" where
  "rangeFuncPanic v = (v\<lparr>rfPanicked := True\<rparr>, False)"

definition rangeFuncNormalStage ::
  "BinaryInfo \<Rightarrow> rangeFuncVars \<Rightarrow> Stackframe \<Rightarrow> Function \<Rightarrow> rangeFuncVars \<times> bool" where
  "rangeFuncNormalStage bi v fr fn =
     (case rfRangeParent v of
        None \<Rightarrow> rangeFuncPanic v
      | Some rp \<Rightarrow>
          (case (if offset fn = offset rp then closurePtrOk bi v fr else Some False) of
             None \<Rightarrow> rangeFuncPanic v
           | Some True \<Rightarrow> (v\<lparr>rfFrames := rfFrames v @ [fr], rfStage := lastFrameStage\<rparr>, True)
           | Some False \<Rightarrow>
               (case (if rangeParent bi fn = Some rp then closurePtrOk bi v fr else Some False) of
                  None \<Rightarrow> rangeFuncPanic v
                | Some True \<Rightarrow>
                    let v1 = appendFrame v fr in
                    if \<not> optimized fn \<and> rfClosurePtr v1 = 0 then (abortRangeFunc v1, False)
                    else (v1, True)
                | Some False \<Rightarrow>
                    if rfFrames v = [] then rangeFuncPanic v
                    else if Inlined (last (rfFrames v)) \<and> \<not> Inlined fr \<and> rfClosurePtr v = 0
                    then (abortRangeFunc v, False)
                    else (v, True))))"

definition rangeFuncCallback :: "BinaryInfo \<Rightarrow> rangeFuncVars callback" where
  "rangeFuncCallback bi v0 fr =
     (if rfPanicked v0 then (v0, False)
      else if length (rfFrames v0) > 0 \<and> regsSP (Regs fr) < regsSP (Regs (last (rfFrames v0)))
      then (v0\<lparr>rfNonMonotonicSP := True\<rparr>, False)
      else
        let v = (if rfAddRetFrame v0
                 then v0\<lparr>rfAddRetFrame := False, rfFrames := rfFrames v0 @ [fr]\<rparr>
                 else v0)
        in case Fn (Call fr) of
             None \<Rightarrow>
               if rfStage v = startStage then (abortRangeFunc v, False) else (v, True)
           | Some fn \<Rightarrow>
               (case rfStage v of
                  startStage \<Rightarrow>
                    let v1 = (appendFrame v fr)
                               \<lparr>rfRangeParent := rangeParent bi fn, rfStage := normalStage\<rparr>;
                        stop = (rfRangeParent v1 = None \<or>
                                (\<not> optimized fn \<and> \<not> Inlined fr \<and> rfClosurePtr v1 = 0))
                    in if stop then (abortRangeFunc v1, False) else (v1, True)
                | normalStage \<Rightarrow> rangeFuncNormalStage bi v fr fn
                | lastFrameStage \<Rightarrow>
                    (v\<lparr>rfFrames := rfFrames v @ [fr], rfStage := doneStage\<rparr>, False)
                | doneStage \<Rightarrow> (v, False)))"

text \<open>What \<open>rangeFuncStackTrace\<close> does once the iteration is over.\<close>

definition rangeFuncFinish ::
  "nat \<Rightarrow> deferReader \<Rightarrow> G \<Rightarrow> stackIterator \<Rightarrow> rangeFuncVars \<Rightarrow>
   (error + Stackframe list) outcome option" where
  "rangeFuncFinish fuel dm gg it v =
     (if rfPanicked v then Some Panic
      else
        case err it of
          Some e \<Rightarrow> Some (Ok (Inl e))
        | None \<Rightarrow>
            if rfNonMonotonicSP v then Some (Ok (Inl ErrNonMonotonicSP))
            else if rfStage v \<noteq> doneStage then Some (Ok (Inl ErrNoRangeParent))
            else if length (rfFrames v) mod 2 \<noteq> 0 then Some (Ok (Inl ErrIncompleteRangeFunc))
            else
              (case readDefers fuel dm (gDefer gg) (rfFrames v) of
                 None \<Rightarrow> None
               | Some frames' \<Rightarrow> Some (Ok (Inr frames'))))"

definition rangeFuncStackTrace ::
  "nat \<Rightarrow> BinaryInfo \<Rightarrow> switchStackFn \<Rightarrow>
   (uint64 \<Rightarrow> uint64 \<Rightarrow> uint64 \<Rightarrow> uint64 \<Rightarrow> uint64 \<Rightarrow> DwarfRegisters) \<Rightarrow> deferReader \<Rightarrow>
   bool \<Rightarrow> G option \<Rightarrow> (error + Stackframe list) outcome option" where
  "rangeFuncStackTrace fuel bi sw fromG dm tgt g0 =
     (case g0 of
        None \<Rightarrow> Some (Ok (Inr []))
      | Some gg \<Rightarrow>
          (case goroutineStackIterator bi fromG tgt gg StacktraceSimple of
             Inl e \<Rightarrow> Some (Ok (Inl e))
           | Inr it \<Rightarrow>
               (case stacktraceFunc fuel bi sw (rangeFuncCallback bi) it rangeFuncInit of
                  None \<Rightarrow> None
                | Some Panic \<Rightarrow> Some Panic
                | Some (Ok (it', v)) \<Rightarrow> rangeFuncFinish fuel dm gg it' v)))"

section \<open>Predicates used in the statements\<close>

text \<open>
  \<open>sameShape F G\<close>: \<open>G\<close> is \<open>F\<close> up to the fields \<open>readDefers\<close> writes
  (\<open>TopmostDefer\<close> and \<open>Defers\<close>).
\<close>

definition sameShape :: "Stackframe list \<Rightarrow> Stackframe list \<Rightarrow> bool" where
  "sameShape F G \<longleftrightarrow>
     length G = length F \<and>
     (\<forall>k < length F. SystemStack (G ! k) = SystemStack (F ! k) \<and>
                       Inlined (G ! k) = Inlined (F ! k) \<and>
                       Regs (G ! k) = Regs (F ! k) \<and> Err (G ! k) = Err (F ! k))"

text \<open>
  \<open>deferBelongs F i c\<close>: the readable defer \<open>c\<close> lies in frame \<open>i\<close> of \<open>F\<close>:
  the frame is neither on the system stack nor inlined, \<open>c.SP\<close> is below its
  CFA, and at or above the CFA of every earlier frame that is neither on the
  system stack nor inlined.
\<close>

definition deferBelongs :: "Stackframe list \<Rightarrow> nat \<Rightarrow> Defer \<Rightarrow> bool" where
  "deferBelongs F i c \<longleftrightarrow>
     Unreadable c = None \<and> \<not> SystemStack (F ! i) \<and> \<not> Inlined (F ! i) \<and>
     SP c < CFA (Regs (F ! i)) \<and>
     (\<forall>j < i. \<not> SystemStack (F ! j) \<and> \<not> Inlined (F ! j) \<longrightarrow> CFA (Regs (F ! j)) \<le> SP c)"

text \<open>
  \<open>deferChain n dm curdefer\<close>: the first \<open>n\<close> defers of the list the walk of
  \<open>readDefers\<close> follows, \<open>curdefer\<close> and then what \<open>Next\<close> returns, one after
  the other.
\<close>

fun deferChain :: "nat \<Rightarrow> deferReader \<Rightarrow> Defer option \<Rightarrow> Defer list" where
  "deferChain 0 dm curdefer = []"
| "deferChain (Suc n) dm None = []"
| "deferChain (Suc n) dm (Some d) = d # deferChain n dm (deferNext dm d)"

text \<open>
  \<open>attachedOk visited F i d\<close>: what holds of a defer \<open>d\<close> found in the
  \<open>Defers\<close> of frame \<open>i\<close>, where \<open>visited\<close> are the defers of the walk. There
  is a defer \<open>c\<close> of the walk such that either \<open>c\<close> is unreadable and \<open>d\<close> is
  \<open>c\<close>, or \<open>c\<close> is readable and lies in frame \<open>i\<close>, and \<open>d\<close> is what the walk
  attaches for \<open>c\<close>: the entries of \<open>c.rangefunc\<close> when there are any, \<open>c\<close>
  itself otherwise.
\<close>

definition attachedOk :: "Defer list \<Rightarrow> Stackframe list \<Rightarrow> nat \<Rightarrow> Defer \<Rightarrow> bool" where
  "attachedOk visited F i d \<longleftrightarrow>
     (\<exists>c \<in> set visited.
        (Unreadable c \<noteq> None \<and> d = c) \<or>
        (deferBelongs F i c \<and>
         d \<in> set (if length (rangefunc c) > 0 then rangefunc c else [c])))"

text \<open>
  \<open>recording cb\<close> is the callback \<open>cb\<close> that also keeps, next to the variables
  of \<open>cb\<close>, the list of the frames it was called with, in order.
\<close>

definition recording :: "'s callback \<Rightarrow> ('s \<times> Stackframe list) callback" where
  "recording cb v fr =
     (case cb (fst v) fr of (s', again) \<Rightarrow> ((s', snd v @ [fr]), again))"

text \<open>
  \<open>sharesFrame F x\<close>: the frame \<open>x\<close> carries the \<open>Current\<close> location, \<open>Regs\<close>,
  \<open>Ret\<close> and \<open>stackHi\<close> of \<open>F\<close>.
\<close>

definition sharesFrame :: "Stackframe \<Rightarrow> Stackframe \<Rightarrow> bool" where
  "sharesFrame F x \<longleftrightarrow>
     Current x = Current F \<and> Regs x = Regs F \<and> Ret x = Ret F \<and> stackHi x = stackHi F"

section \<open>Example targets\<close>

text \<open>
  A small ARM64 target used to run the definitions: a leaf frame whose CFA is
  \<open>SP + 16\<close> and whose return address is in the link register, the shape
  \<open>arm64FixFrameUnwindContext\<close> leaves for a function without a rule for
  \<open>LR\<close>.
\<close>

definition exDwarfRegisterFromBytes :: "byte list \<Rightarrow> DwarfRegister" where
  "exDwarfRegisterFromBytes buf = \<lparr>Uint64Val = le_uint64 (take 8 buf), Bytes = Some buf\<rparr>"

definition exLeafContext :: FrameContext where
  "exLeafContext =
     \<lparr>ctxCFA = \<lparr>Rule = RuleCFA, Reg = 31, Offset = 16, Expression = []\<rparr>,
      ctxRegs = [(30, \<lparr>Rule = RuleRegister, Reg = 30, Offset = 0, Expression = []\<rparr>)],
      RetAddrReg = 30\<rparr>"

definition exMemWord :: "uint64 \<Rightarrow> byte list \<Rightarrow> nat \<Rightarrow> uint64 \<Rightarrow> byte list \<times> error option" where
  "exMemWord a bs n addr =
     (if addr = a then (take n bs, None) else ([], Some (ErrExternal ''unmapped'')))"

definition exBinaryInfo :: BinaryInfo where
  "exBinaryInfo =
     \<lparr>ReadMemory = (\<lambda>n addr. ([], Some (ErrExternal ''unmapped''))),
      readUintRaw = (\<lambda>addr n. (0, Some (ErrExternal ''unmapped''))),
      readIntRaw = (\<lambda>addr n. (0, Some (ErrExternal ''unmapped''))),
      frameContextAt = (\<lambda>pc0. exLeafContext),
      ExecuteStackProgram = (\<lambda>rs expr. Inl (ErrExternal ''no expression'')),
      DwarfRegisterFromBytes = exDwarfRegisterFromBytes,
      imageStaticBase = (\<lambda>pc0. 0),
      PCToLine = (\<lambda>pc0. ([], 0, None)),
      PCToFunc = (\<lambda>pc0. None),
      lineInfoPCToLine = (\<lambda>fn pc0. ([], 0)),
      getDwarfTree = (\<lambda>fn. Inl (ErrExternal ''no DWARF'')),
      locationFrameBase = (\<lambda>tree pc0 rs. 0),
      readClosurePtr = (\<lambda>tree rs. 0),
      readSigtrampgoContext = (\<lambda>it. Inl (ErrExternal ''no context'')),
      InlineStack = (\<lambda>tree pc0. []),
      filePath = (\<lambda>c idx. Inl (ErrExternal ''no file'')),
      g0SchedSP = (\<lambda>gg. None),
      rangeParent = (\<lambda>fn. None),
      rangeBodyClosures = (\<lambda>fr. []),
      producerAfterGo119 = True,
      goosLinux = True,
      usesLR = True,
      ptrSize = 8,
      regSize = arm64RegSize\<rparr>"

definition exRuntimeCU :: compileUnit where
  "exRuntimeCU =
     \<lparr>cuName = ''runtime'', lineInfoPresent = True, imageStripped = False, cuOptimized = True\<rparr>"

definition exSigpanicFn :: Function where
  "exSigpanicFn =
     \<lparr>Name = ''runtime.sigpanic'', Entry = 0x400800, End = 0x400900, offset = 64,
      cu = exRuntimeCU\<rparr>"

definition exSigpanicFrame :: Stackframe where
  "exSigpanicFrame =
     zeroStackframe
       \<lparr>Current := \<lparr>PC = 0x400850, File = ''signal_unix.go'', Line = 900, Fn = Some exSigpanicFn\<rparr>,
        Call := \<lparr>PC = 0x400850, File = ''signal_unix.go'', Line = 900, Fn = Some exSigpanicFn\<rparr>,
        Ret := 0x401000\<rparr>"

text \<open>
  The iterator after it delivered the \<open>runtime.sigpanic\<close> frame: it stands at
  \<open>pc = 0x401000\<close> in the faulting leaf function, \<open>SP = 0xC000010000\<close>, and the
  link register still holds \<open>0x5000\<close> from before the fault.
\<close>

definition exAfterSigpanic :: stackIterator where
  "exAfterSigpanic =
     (newStackIterator True
        (arm64AddrAndStackRegsToDwarfRegisters 0 0x401000 0xC000010000 0xC000010008 0x5000)
        0xC000020000 None 0)
       \<lparr>top_frame := False, sigret := True, frame := exSigpanicFrame, count := 1\<rparr>"

definition exFramePointerRule :: DWRule where
  "exFramePointerRule = \<lparr>Rule = RuleFramePointer, Reg = 29, Offset = 0, Expression = []\<rparr>"

text \<open>
  A goroutine whose first \<open>_defer\<close>, at \<open>0x1000\<close>, was pushed by a
  range-over-func body: its \<open>head\<close> chain leads to the list of the 13 nodes
  at \<open>0x2000\<close>, \<open>0x2040\<close>, ..., \<open>0x2300\<close>, each readable and linked to the
  next, the last with a nil link.
\<close>

definition exDeferReader :: deferReader where
  "exDeferReader a =
     \<lparr>dvUnreadable = None, dvFnIsFunc = True, dvFnBase = 0x402000, dvFnAddr = 0,
      dvFnValue = None, dvPC = 0x401800, dvSP = 0xC000010000, dvSiz = None,
      dvLink = (if 0x2000 \<le> a \<and> a < 0x2300 then a + 0x40 else 0),
      dvHead = (if a = 0x1000 then Some 0x2000 else None)\<rparr>"

text \<open>
  The fifth scenario of the specification: two defers with \<open>sp = 0x1000\<close> and
  \<open>0x1040\<close> (the \<open>_defer\<close> records at \<open>0x7000\<close> and \<open>0x7040\<close>), three frames
  with \<open>cfa = 0x1008\<close>, \<open>0x1048\<close> and \<open>0x1100\<close>.
\<close>

definition exFrameAt :: "uint64 \<Rightarrow> Stackframe" where
  "exFrameAt c = zeroStackframe\<lparr>Regs := zeroDwarfRegisters\<lparr>CFA := c\<rparr>\<rparr>"

definition exFrames5 :: "Stackframe list" where
  "exFrames5 = [exFrameAt 0x1008, exFrameAt 0x1048, exFrameAt 0x1100]"

definition exDefers5 :: deferReader where
  "exDefers5 a =
     \<lparr>dvUnreadable = None, dvFnIsFunc = True, dvFnBase = 0x402000, dvFnAddr = 0,
      dvFnValue = None, dvPC = 0x401800,
      dvSP = (if a = 0x7000 then 0x1000 else 0x1040), dvSiz = None,
      dvLink = (if a = 0x7000 then 0x7040 else 0),
      dvHead = None\<rparr>"

text \<open>
  A corrupted list: the defer at \<open>0x7100\<close> has \<open>sp = 0x1040\<close> and links to
  the defer at \<open>0x7140\<close>, whose \<open>sp\<close> is \<open>0x1000\<close>.
\<close>

definition exDefersCorrupted :: deferReader where
  "exDefersCorrupted a =
     \<lparr>dvUnreadable = None, dvFnIsFunc = True, dvFnBase = 0x402000, dvFnAddr = 0,
      dvFnValue = None, dvPC = 0x401800,
      dvSP = (if a = 0x7100 then 0x1040 else 0x1000), dvSiz = None,
      dvLink = (if a = 0x7100 then 0x7140 else 0),
      dvHead = None\<rparr>"

text \<open>
  The second scenario of the specification: \<open>main.foo\<close> is inlined into
  \<open>main.bar\<close> and the thread stands inside the inlined code, at \<open>foo.go:3\<close>;
  the call of \<open>foo\<close> is at \<open>bar.go:10\<close>.
\<close>

definition exUserCU :: compileUnit where
  "exUserCU =
     \<lparr>cuName = ''main'', lineInfoPresent = True, imageStripped = False, cuOptimized = True\<rparr>"

definition exBarFn :: Function where
  "exBarFn =
     \<lparr>Name = ''main.bar'', Entry = 0x402000, End = 0x402100, offset = 200, cu = exUserCU\<rparr>"

definition exFooEntry :: InlineEntry where
  "exFooEntry =
     \<lparr>entName = Some ''main.foo'', entCallFile = Some 2, entCallLine = Some 10, entOffset = 230\<rparr>"

definition exInlineBinaryInfo :: BinaryInfo where
  "exInlineBinaryInfo =
     exBinaryInfo
       \<lparr>PCToLine := (\<lambda>pc0. (''foo.go'', 3, Some exBarFn)),
        getDwarfTree := (\<lambda>fn. Inr 1),
        InlineStack := (\<lambda>tree pc0. [exFooEntry]),
        filePath := (\<lambda>c idx. Inr ''bar.go'')\<rparr>"

text \<open>
  A thread without goroutine stopped at \<open>pc = 0x402040\<close> with
  \<open>SP = 0xC000010000\<close> and a link register of zero.
\<close>

definition exThreadIterator :: stackIterator where
  "exThreadIterator =
     newStackIterator True
       (arm64AddrAndStackRegsToDwarfRegisters 0 0x402040 0xC000010000 0xC000010008 0)
       0 None 0"

definition exBarFrame :: Stackframe where
  "exBarFrame =
     zeroStackframe
       \<lparr>Current := \<lparr>PC = 0x402040, File = ''foo.go'', Line = 3, Fn = Some exBarFn\<rparr>,
        Call := \<lparr>PC = 0x402040, File = ''foo.go'', Line = 3, Fn = Some exBarFn\<rparr>,
        Regs := regs exThreadIterator, Ret := 0x401000, SystemStack := True,
        lastpc := 0x402040\<rparr>"

text \<open>
  The frame context \<open>arm64FixFrameUnwindContext\<close> builds when there is no
  frame descriptor entry: the CFA is \<open>BP + 16\<close>, the return address (the
  rule of \<open>PC\<close>) is read at \<open>CFA - 8\<close>, \<open>BP\<close> at \<open>CFA - 16\<close>, and \<open>SP\<close> is the
  CFA.
\<close>

definition exNoFDEContext :: FrameContext where
  "exNoFDEContext =
     \<lparr>ctxCFA = \<lparr>Rule = RuleCFA, Reg = 29, Offset = 16, Expression = []\<rparr>,
      ctxRegs = [(32, \<lparr>Rule = RuleOffset, Reg = 0, Offset = - 8, Expression = []\<rparr>),
                 (29, \<lparr>Rule = RuleOffset, Reg = 0, Offset = - 16, Expression = []\<rparr>),
                 (31, \<lparr>Rule = RuleValOffset, Reg = 0, Offset = 0, Expression = []\<rparr>)],
      RetAddrReg = 32\<rparr>"

text \<open>
  A parked goroutine (no thread): its saved registers are \<open>pc = 0x402040\<close>,
  \<open>sp = 0xC000010000\<close>, \<open>bp = 0xC000010008\<close> and \<open>lr = 0\<close>.
\<close>

definition exParkedG :: G where
  "exParkedG =
     \<lparr>gID = 7, gPC = 0x402040, gSP = 0xC000010000, gBP = 0xC000010008, gLR = 0,
      stack_lo = 0xC000000000, stack_hi = 0xC000020000, gSystemStack = False,
      gThread = None, gDefer = None\<rparr>"

text \<open>
  A goroutine running on the system stack of its thread: the thread stands at
  \<open>pc = 0x7F0000\<close> with \<open>SP = 0x7FFF0000\<close>, \<open>BP = 0x7FFF0008\<close> and a link
  register of zero; the registers saved in \<open>g.sched\<close> are those of
  \<open>exParkedG\<close>.
\<close>

definition exThreadRegs :: DwarfRegisters where
  "exThreadRegs = arm64AddrAndStackRegsToDwarfRegisters 0 0x7F0000 0x7FFF0000 0x7FFF0008 0"

definition exSystemG :: G where
  "exSystemG = exParkedG\<lparr>gSystemStack := True, gThread := Some (Inr exThreadRegs)\<rparr>"

text \<open>
  A frame context whose CFA rule names register 7, which the register set of
  the thread does not hold: the CFA is undefined.
\<close>

definition exUndefinedCFAContext :: FrameContext where
  "exUndefinedCFAContext =
     \<lparr>ctxCFA = \<lparr>Rule = RuleCFA, Reg = 7, Offset = 0, Expression = []\<rparr>,
      ctxRegs = [],
      RetAddrReg = 30\<rparr>"

text \<open>
  Two targets for \<open>exSystemG\<close>. In the first the CFA is undefined at the pc of
  the thread; in the second the thread's pc has no frame descriptor entry and
  the return address slot cannot be read. Everywhere else, and so at the pc
  saved in \<open>g.sched\<close>, both have the leaf context.
\<close>

definition exUndefinedCFABinaryInfo :: BinaryInfo where
  "exUndefinedCFABinaryInfo =
     exBinaryInfo
       \<lparr>frameContextAt := (\<lambda>pc0. if pc0 = 0x7F0000 then exUndefinedCFAContext else exLeafContext)\<rparr>"

definition exUnreadableRetBinaryInfo :: BinaryInfo where
  "exUnreadableRetBinaryInfo =
     exBinaryInfo
       \<lparr>frameContextAt := (\<lambda>pc0. if pc0 = 0x7F0000 then exNoFDEContext else exLeafContext)\<rparr>"

text \<open>The iterator \<open>goroutineStackIterator\<close> builds for \<open>exSystemG\<close>, without options.\<close>

definition exSystemIterator :: stackIterator where
  "exSystemIterator = newStackIterator True exThreadRegs 0xC000020000 (Some exSystemG) 0"
section \<open>Properties\<close>

lemma executeFrameRegRule_regs_only:
  "regs it = regs it' \<Longrightarrow>
   executeFrameRegRule bi it regnum rule cfa = executeFrameRegRule bi it' regnum rule cfa"
  by (cases "Rule rule") (auto simp: executeFrameRegRule_def split: option.splits)

lemma advanceRegsRule_keeps:
  "advanceRegsRule bi framectx x (it, cfr, ret, ra) = (it', cfr', ret', ra') \<Longrightarrow>
   regs it' = regs it \<and> frame it' = frame it \<and> pc it' = pc it"
  by (cases x) (auto split: prod.splits option.splits if_splits)

lemma advanceRegsRule_other:
  "fst x \<noteq> RetAddrReg framectx \<Longrightarrow>
   advanceRegsRule bi framectx x (it, cfr, ret, ra) = (it', cfr', ret', ra') \<Longrightarrow>
   ret' = ret \<and> ra' = ra \<and> err it' = err it"
  by (cases x) (auto split: prod.splits option.splits if_splits)

lemma advanceRegsLoop_keeps:
  "advanceRegsLoop bi framectx xs (it, cfr, ret, ra) = (it', cfr', ret', ra') \<Longrightarrow>
   regs it' = regs it \<and> frame it' = frame it \<and> pc it' = pc it"
proof (induction xs arbitrary: it cfr ret ra)
  case Nil
  then show ?case by simp
next
  case (Cons x xs)
  obtain it1 cfr1 ret1 ra1 where
    s: "advanceRegsRule bi framectx x (it, cfr, ret, ra) = (it1, cfr1, ret1, ra1)"
    by (metis prod_cases4)
  from Cons.prems s have "advanceRegsLoop bi framectx xs (it1, cfr1, ret1, ra1) = (it', cfr', ret', ra')"
    by simp
  from Cons.IH [OF this] advanceRegsRule_keeps [OF s] show ?case by simp
qed

lemma advanceRegsLoop_other:
  "RetAddrReg framectx \<notin> fst ` set xs \<Longrightarrow>
   advanceRegsLoop bi framectx xs (it, cfr, ret, ra) = (it', cfr', ret', ra') \<Longrightarrow>
   ret' = ret \<and> ra' = ra \<and> err it' = err it"
proof (induction xs arbitrary: it cfr ret ra)
  case Nil
  then show ?case by simp
next
  case (Cons x xs)
  obtain it1 cfr1 ret1 ra1 where
    s: "advanceRegsRule bi framectx x (it, cfr, ret, ra) = (it1, cfr1, ret1, ra1)"
    by (metis prod_cases4)
  from Cons.prems have nx: "fst x \<noteq> RetAddrReg framectx" and
    nxs: "RetAddrReg framectx \<notin> fst ` set xs" by auto
  from Cons.prems s have "advanceRegsLoop bi framectx xs (it1, cfr1, ret1, ra1) = (it', cfr', ret', ra')"
    by simp
  from Cons.IH [OF nxs this] advanceRegsRule_other [OF nx s] show ?case by simp
qed


lemma advanceRegsRule_sigpanic:
  assumes "usesLR bi" and "prevFrameIsSigpanic it"
    and "executeFrameRegRule bi it (RetAddrReg framectx) rule (CFA (regs it)) = (Some r, rerr)"
    and "advanceRegsRule bi framectx (RetAddrReg framectx, rule) (it, cfr, ret, ra) = (it', cfr', ret', ra')"
  shows "ret' = le_uint64 (fst (readBuf bi 8 (CFA (regs it))))"
  using assms by (auto split: prod.splits option.splits)

lemma advanceRegsLoop_sigpanic:
  assumes "usesLR bi" and "prevFrameIsSigpanic it"
    and "distinct (map fst xs)" and "(RetAddrReg framectx, rule) \<in> set xs"
    and "executeFrameRegRule bi it (RetAddrReg framectx) rule (CFA (regs it)) = (Some r, rerr)"
    and "advanceRegsLoop bi framectx xs (it, cfr, ret, ra) = (it', cfr', ret', ra')"
  shows "ret' = le_uint64 (fst (readBuf bi 8 (CFA (regs it))))"
  using assms
proof (induction xs arbitrary: it cfr ret ra)
  case Nil
  then show ?case by simp
next
  case (Cons x xs)
  obtain it1 cfr1 ret1 ra1 where
    s: "advanceRegsRule bi framectx x (it, cfr, ret, ra) = (it1, cfr1, ret1, ra1)"
    by (metis prod_cases4)
  have k: "regs it1 = regs it" "frame it1 = frame it"
    using advanceRegsRule_keeps [OF s] by simp_all
  have rest: "advanceRegsLoop bi framectx xs (it1, cfr1, ret1, ra1) = (it', cfr', ret', ra')"
    using Cons.prems(6) s by simp
  show ?case
  proof (cases "fst x = RetAddrReg framectx")
    case True
    have nin: "RetAddrReg framectx \<notin> fst ` set xs"
      using Cons.prems(3) True by auto
    then have "x = (RetAddrReg framectx, rule)"
      using Cons.prems(4) by (auto simp: image_iff)
    then have "ret1 = le_uint64 (fst (readBuf bi 8 (CFA (regs it))))"
      using advanceRegsRule_sigpanic [OF Cons.prems(1,2,5)] s by simp
    then show ?thesis
      using advanceRegsLoop_other [OF nin rest] by simp
  next
    case False
    then have mem: "(RetAddrReg framectx, rule) \<in> set xs"
      using Cons.prems(4) by auto
    have sp: "prevFrameIsSigpanic it1"
      using Cons.prems(2) k by (simp add: prevFrameIsSigpanic_def)
    have ex: "executeFrameRegRule bi it1 (RetAddrReg framectx) rule (CFA (regs it1)) = (Some r, rerr)"
      using Cons.prems(5) k executeFrameRegRule_regs_only [of it1 it] by simp
    have d: "distinct (map fst xs)"
      using Cons.prems(3) by simp
    show ?thesis
      using Cons.IH [OF Cons.prems(1) sp d mem ex rest] k by simp
  qed
qed


lemmas ex_regs_defs =
  newStackIterator_def arm64AddrAndStackRegsToDwarfRegisters_def ARM64_PC_def ARM64_SP_def
  ARM64_BP_def ARM64_LR_def regsReg_def regsUint64Val_def regsPC_def regsSP_def regsBP_def
  DwarfRegisterFromUint64_def AddReg_def zeroDwarfRegisters_def

lemmas ex_bi_defs =
  exBinaryInfo_def exLeafContext_def exMemWord_def exDwarfRegisterFromBytes_def readBuf_def
  readRegisterAt_def arm64RegSize_def

text \<open>
  C2. For every register number \<open>regnum\<close>, CFA and register set in which the
  register \<open>r\<close> of a \<open>FramePointer(r)\<close> rule is present: when \<open>regs[r]\<close> is at
  most the CFA (as \<open>uint64\<close>), the rule reads \<open>regSize(regnum)\<close> bytes of memory
  at the address \<open>regs[r]\<close> (a failed read gives no register and the error);
  when \<open>regs[r]\<close> is above the CFA, the rule returns \<open>regs[r]\<close> as it is.
\<close>

theorem executeFrameRegRule_FramePointer:
  assumes "Rule rule = RuleFramePointer"
    and "regsReg (regs it) (Reg rule) = Some curReg"
  shows "(Uint64Val curReg \<le> cfa \<longrightarrow>
            executeFrameRegRule bi it regnum rule cfa =
              (case readBuf bi (regSize bi regnum) (Uint64Val curReg) of
                 (buf, None) \<Rightarrow> (Some (DwarfRegisterFromBytes bi buf), None)
               | (buf, Some e) \<Rightarrow> (None, Some e)))
       \<and> (cfa < Uint64Val curReg \<longrightarrow>
            executeFrameRegRule bi it regnum rule cfa = (Some curReg, None))"
  using assms
  by (auto simp: executeFrameRegRule_def readRegisterAt_def split: prod.splits option.splits)

theorem executeFrameRegRule_FramePointer_witness:
  "executeFrameRegRule
     (exBinaryInfo\<lparr>ReadMemory := exMemWord 0xC000010008 [0x28, 0, 1, 0, 0xC0, 0, 0, 0]\<rparr>)
     exAfterSigpanic 29 exFramePointerRule 0xC000010010 =
     (Some \<lparr>Uint64Val = 0xC000010028, Bytes = Some [0x28, 0, 1, 0, 0xC0, 0, 0, 0]\<rparr>, None)
   \<and> executeFrameRegRule exBinaryInfo exAfterSigpanic 29 exFramePointerRule 0x1000 =
     (Some (DwarfRegisterFromUint64 0xC000010008), None)"
  using
    executeFrameRegRule_FramePointer
      [where rule = exFramePointerRule and it = exAfterSigpanic
         and curReg = "DwarfRegisterFromUint64 0xC000010008" and cfa = "0xC000010010"
         and bi = "exBinaryInfo\<lparr>ReadMemory := exMemWord 0xC000010008 [0x28, 0, 1, 0, 0xC0, 0, 0, 0]\<rparr>"
         and regnum = 29]
    executeFrameRegRule_FramePointer
      [where rule = exFramePointerRule and it = exAfterSigpanic
         and curReg = "DwarfRegisterFromUint64 0xC000010008" and cfa = "0x1000"
         and bi = exBinaryInfo and regnum = 29]
  by (simp add: exFramePointerRule_def exAfterSigpanic_def ex_regs_defs ex_bi_defs)

text \<open>
  C1 as stated: with a link register and the \<open>runtime.sigpanic\<close> frame just
  delivered, \<open>ret\<close> would always be the word at the CFA and never the link
  register. It fails when that word is zero: the leaf fallback at the end of
  \<open>advanceRegs\<close> then takes the link register after all. Here the 8 bytes at
  the CFA \<open>0xC000010010\<close> are readable and zero and \<open>ret\<close> is \<open>0x5000\<close>, the
  link register.
\<close>

theorem advanceRegs_sigpanic_counterexample:
  "usesLR (exBinaryInfo\<lparr>ReadMemory := exMemWord 0xC000010010 [0, 0, 0, 0, 0, 0, 0, 0]\<rparr>)
   \<and> prevFrameIsSigpanic exAfterSigpanic
   \<and> readBuf (exBinaryInfo\<lparr>ReadMemory := exMemWord 0xC000010010 [0, 0, 0, 0, 0, 0, 0, 0]\<rparr>)
        8 0xC000010010 = ([0, 0, 0, 0, 0, 0, 0, 0], None)
   \<and> regsUint64Val (regs exAfterSigpanic) (LRRegNum (regs exAfterSigpanic)) = 0x5000
   \<and> (case advanceRegs
             (exBinaryInfo\<lparr>ReadMemory := exMemWord 0xC000010010 [0, 0, 0, 0, 0, 0, 0, 0]\<rparr>)
             exAfterSigpanic of
         (it', callFrameRegs, ret, retaddr) \<Rightarrow>
           CFA (regs it') = 0xC000010010 \<and> err it' = None \<and> ret = 0x5000
           \<and> ret \<noteq> le_uint64 [0, 0, 0, 0, 0, 0, 0, 0])"
  by (simp add: advanceRegs_def executeFrameRegRule_def prevFrameIsSigpanic_def
      exAfterSigpanic_def exSigpanicFrame_def exSigpanicFn_def zeroStackframe_def
      ex_regs_defs ex_bi_defs)

text \<open>
  C1, amended. On a link-register architecture, when the frame delivered last
  is \<open>runtime.sigpanic\<close>, the CFA rule resolves and the rule of the
  return-address register resolves, \<open>advanceRegs\<close> drops the value of that
  rule and decodes \<open>ret\<close> from the 8 bytes read at the CFA of the current
  frame; the result is that word, unless the word is zero and the link
  register is present, in which case the leaf fallback returns the link
  register.
\<close>

theorem advanceRegs_sigpanic_ret:
  assumes "usesLR bi" and "prevFrameIsSigpanic it"
    and "executeFrameRegRule bi it 0 (ctxCFA (frameContextAt bi (pc it))) 0 = (Some cfareg, cerr)"
    and "distinct (map fst (ctxRegs (frameContextAt bi (pc it))))"
    and "(RetAddrReg (frameContextAt bi (pc it)), rule) \<in> set (ctxRegs (frameContextAt bi (pc it)))"
    and "executeFrameRegRule bi (it\<lparr>regs := (regs it)\<lparr>CFA := Uint64Val cfareg\<rparr>\<rparr>)
           (RetAddrReg (frameContextAt bi (pc it))) rule (Uint64Val cfareg) = (Some r, rerr)"
    and "advanceRegs bi it = (it', callFrameRegs, ret, retaddr)"
  shows "CFA (regs it') = Uint64Val cfareg \<and>
         ret = (let w = le_uint64 (fst (readBuf bi 8 (Uint64Val cfareg))) in
                if w = 0 \<and> regsReg (regs it) (LRRegNum (regs it)) \<noteq> None
                then regsUint64Val (regs it) (LRRegNum (regs it)) else w)"
proof -
  define it1 where "it1 = it\<lparr>regs := (regs it)\<lparr>CFA := Uint64Val cfareg\<rparr>\<rparr>"
  define framectx where "framectx = frameContextAt bi (pc it)"
  define cfr0 where "cfr0 =
    AddReg (zeroDwarfRegisters
              \<lparr>StaticBase := imageStaticBase bi (pc it1), ByteOrder := ByteOrder (regs it1),
               PCRegNum := PCRegNum (regs it1), SPRegNum := SPRegNum (regs it1),
               BPRegNum := BPRegNum (regs it1), LRRegNum := LRRegNum (regs it1)\<rparr>)
           (SPRegNum (regs it1)) (Some cfareg)"
  obtain it2 cfr2 ret2 ra2 where
    l: "advanceRegsLoop bi framectx (ctxRegs framectx) (it1, cfr0, 0, 0) = (it2, cfr2, ret2, ra2)"
    by (metis prod_cases4)
  have sp: "prevFrameIsSigpanic it1"
    using assms(2) by (simp add: prevFrameIsSigpanic_def it1_def)
  have c: "CFA (regs it1) = Uint64Val cfareg"
    by (simp add: it1_def)
  have ex: "executeFrameRegRule bi it1 (RetAddrReg framectx) rule (CFA (regs it1)) = (Some r, rerr)"
    using assms(6) by (simp add: it1_def framectx_def)
  have r2: "ret2 = le_uint64 (fst (readBuf bi 8 (Uint64Val cfareg)))"
    using advanceRegsLoop_sigpanic [OF assms(1) sp _ _ ex l] assms(4,5) c
    by (simp add: framectx_def)
  have k: "regs it2 = regs it1"
    using advanceRegsLoop_keeps [OF l] by simp
  have res: "advanceRegs bi it =
      (it2, cfr2,
       (if usesLR bi \<and> ret2 = 0 \<and> regsReg (regs it2) (LRRegNum (regs it2)) \<noteq> None
        then regsUint64Val (regs it2) (LRRegNum (regs it2)) else ret2), ra2)"
    using assms(3) l
    by (simp add: advanceRegs_def Let_def framectx_def [symmetric] it1_def [symmetric] cfr0_def [symmetric])
  have lr: "regsReg (regs it1) (LRRegNum (regs it1)) = regsReg (regs it) (LRRegNum (regs it))"
       "regsUint64Val (regs it1) (LRRegNum (regs it1)) = regsUint64Val (regs it) (LRRegNum (regs it))"
    by (simp_all add: it1_def regsReg_def regsUint64Val_def)
  show ?thesis
    using res assms(7) assms(1) r2 k lr c by (auto simp: Let_def)
qed

theorem advanceRegs_sigpanic_ret_witness:
  "(case advanceRegs
           (exBinaryInfo\<lparr>ReadMemory := exMemWord 0xC000010010 [0x34, 0x12, 0x40, 0, 0, 0, 0, 0]\<rparr>)
           exAfterSigpanic of
       (it', callFrameRegs, ret, retaddr) \<Rightarrow> CFA (regs it') = 0xC000010010 \<and> ret = 0x401234)"
proof -
  let ?bi = "exBinaryInfo\<lparr>ReadMemory := exMemWord 0xC000010010 [0x34, 0x12, 0x40, 0, 0, 0, 0, 0]\<rparr>"
  obtain it' cfr ret retaddr where
    a: "advanceRegs ?bi exAfterSigpanic = (it', cfr, ret, retaddr)"
    by (metis prod_cases4)
  have h1: "usesLR ?bi"
    by (simp add: exBinaryInfo_def)
  have h2: "prevFrameIsSigpanic exAfterSigpanic"
    by (simp add: prevFrameIsSigpanic_def exAfterSigpanic_def exSigpanicFrame_def
        exSigpanicFn_def zeroStackframe_def)
  have h3: "executeFrameRegRule ?bi exAfterSigpanic 0
              (ctxCFA (frameContextAt ?bi (pc exAfterSigpanic))) 0 =
            (Some (DwarfRegisterFromUint64 0xC000010010), None)"
    by (simp add: executeFrameRegRule_def exAfterSigpanic_def ex_regs_defs ex_bi_defs)
  have h4: "distinct (map fst (ctxRegs (frameContextAt ?bi (pc exAfterSigpanic))))"
    by (simp add: ex_bi_defs)
  have h5: "(RetAddrReg (frameContextAt ?bi (pc exAfterSigpanic)),
             \<lparr>Rule = RuleRegister, Reg = 30, Offset = 0, Expression = []\<rparr>)
            \<in> set (ctxRegs (frameContextAt ?bi (pc exAfterSigpanic)))"
    by (simp add: ex_bi_defs)
  have h6: "executeFrameRegRule ?bi
              (exAfterSigpanic\<lparr>regs := (regs exAfterSigpanic)
                  \<lparr>CFA := Uint64Val (DwarfRegisterFromUint64 0xC000010010)\<rparr>\<rparr>)
              (RetAddrReg (frameContextAt ?bi (pc exAfterSigpanic)))
              \<lparr>Rule = RuleRegister, Reg = 30, Offset = 0, Expression = []\<rparr>
              (Uint64Val (DwarfRegisterFromUint64 0xC000010010)) =
            (Some (DwarfRegisterFromUint64 0x5000), None)"
    by (simp add: executeFrameRegRule_def exAfterSigpanic_def ex_regs_defs ex_bi_defs)
  have "CFA (regs it') = 0xC000010010 \<and> ret = 0x401234"
    using advanceRegs_sigpanic_ret [OF h1 h2 h3 h4 h5 h6 a]
    by (simp add: ex_regs_defs ex_bi_defs)
  then show ?thesis
    using a by simp
qed

subsection \<open>Deferred calls\<close>

lemma rangefuncLoop_length:
  "length (rangefuncLoop dm hdefer rf) \<le> max (Suc (length rf)) (Suc maxRangeFuncDefers)"
proof (induction dm hdefer rf rule: rangefuncLoop.induct)
  case (1 dm hdefer rf)
  show ?case
  proof (cases "link (loadFields dm hdefer)")
    case None
    then show ?thesis
      by (subst rangefuncLoop.simps) (simp add: Let_def)
  next
    case (Some a)
    show ?thesis
    proof (cases "length (rf @ [loadFields dm hdefer]) > maxRangeFuncDefers")
      case True
      then show ?thesis
        using Some by (subst rangefuncLoop.simps) (simp add: Let_def)
    next
      case False
      have "length (rangefuncLoop dm (newDefer a) (rf @ [loadFields dm hdefer]))
              \<le> max (Suc (length (rf @ [loadFields dm hdefer]))) (Suc maxRangeFuncDefers)"
        using "1.IH" [OF refl refl Some False] .
      then show ?thesis
        using Some False by (subst rangefuncLoop.simps) (simp add: Let_def)
    qed
  qed
qed

lemma load_rangefunc_length:
  "length (rangefunc (load dm canrecur (newDefer a))) \<le> Suc maxRangeFuncDefers"
  using rangefuncLoop_length [of dm "newDefer h" "[]" for h]
  by (auto simp: load_def loadFields_def newDefer_def Let_def split: option.splits)

text \<open>
  C7. The claim is that \<open>Defer.rangefunc\<close> never holds more than 10 entries.
  The loop tests \<open>len(d.rangefunc) > maxRangeFuncDefers\<close> after the append,
  so it stops at 11 entries (\<open>load_rangefunc_length\<close> is the bound the code
  keeps). On the goroutine whose range-over-func list has 13 readable nodes,
  loading the first defer with recursion enabled leaves 11 entries in
  \<open>rangefunc\<close>, one more than \<open>maxRangeFuncDefers\<close>.
\<close>

theorem load_rangefunc_eleven:
  "length (rangefunc (load exDeferReader True (newDefer 0x1000))) = 11
   \<and> maxRangeFuncDefers = 10"
  by (simp add: load_def loadFields_def newDefer_def exDeferReader_def Let_def
      rangefuncLoop.simps maxRangeFuncDefers_def)

lemma sameShape_refl: "sameShape F F"
  by (simp add: sameShape_def)

lemma sameShape_update:
  assumes "sameShape F G" and "i < length G"
    and "SystemStack x = SystemStack (G ! i)" and "Inlined x = Inlined (G ! i)"
    and "Regs x = Regs (G ! i)" and "Err x = Err (G ! i)"
  shows "sameShape F (G[i := x])"
  using assms by (auto simp: sameShape_def nth_list_update)

lemma deferNext_SP:
  assumes "deferNext dm d = Some l" and "Unreadable l = None"
  shows "SP d \<le> SP l"
  using assms
  by (auto simp: deferNext_def setUnreadable_def Let_def split: option.splits if_splits)

lemma deferChain_mono: "set (deferChain n dm cur) \<subseteq> set (deferChain (Suc n) dm cur)"
proof (induction n arbitrary: cur)
  case 0
  then show ?case by simp
next
  case (Suc n)
  show ?case
  proof (cases cur)
    case None
    then show ?thesis by simp
  next
    case (Some d)
    have "set (deferChain n dm (deferNext dm d)) \<subseteq> set (deferChain (Suc n) dm (deferNext dm d))"
      by (rule Suc.IH)
    then show ?thesis
      unfolding Some deferChain.simps(3) [of "Suc n"] deferChain.simps(3) [of n]
      by auto
  qed
qed

lemma readDefersLoop_invariant:
  assumes "readDefersLoop fuel dm G cur i = Some G'"
    and "sameShape F G"
    and "\<forall>k < length F. \<forall>d \<in> set (Defers (G ! k)). attachedOk V F k d"
    and "\<forall>c. cur = Some c \<and> Unreadable c = None \<longrightarrow>
           (\<forall>j < i. \<not> SystemStack (F ! j) \<and> \<not> Inlined (F ! j) \<longrightarrow> CFA (Regs (F ! j)) \<le> SP c)"
    and "set (deferChain fuel dm cur) \<subseteq> set V"
  shows "sameShape F G' \<and> (\<forall>k < length F. \<forall>d \<in> set (Defers (G' ! k)). attachedOk V F k d)"
  using assms
proof (induction fuel arbitrary: G cur i)
  case 0
  then show ?case by simp
next
  case (Suc fuel)
  show ?case
  proof (cases cur)
    case None
    then show ?thesis using Suc.prems by simp
  next
    case (Some d)
    note cur = Some
    have len: "length G = length F"
      using Suc.prems(2) by (simp add: sameShape_def)
    have dV: "d \<in> set V"
      using Suc.prems(5) cur by simp
    have nextV: "set (deferChain fuel dm (deferNext dm d)) \<subseteq> set V"
      using Suc.prems(5) cur by simp
    have sameV: "set (deferChain fuel dm cur) \<subseteq> set V"
      using Suc.prems(5) deferChain_mono [of fuel dm cur] by blast
    show ?thesis
    proof (cases "i \<ge> length G")
      case True
      then show ?thesis using Suc.prems cur by simp
    next
      case False
      then have i: "i < length G" by simp
      have shp: "SystemStack (G ! i) = SystemStack (F ! i)" "Inlined (G ! i) = Inlined (F ! i)"
        "Regs (G ! i) = Regs (F ! i)"
        using Suc.prems(2) i len by (simp_all add: sameShape_def)
      show ?thesis
      proof (cases "Unreadable d \<noteq> None")
        case True
        have res: "G' = G[i := (G ! i)\<lparr>Defers := Defers (G ! i) @ [d]\<rparr>]"
          using Suc.prems(1) cur i True by simp
        have s: "sameShape F G'"
          unfolding res by (rule sameShape_update [OF Suc.prems(2) i]) simp_all
        have "attachedOk V F i d"
          using True dV by (auto simp: attachedOk_def)
        then have "\<forall>k < length F. \<forall>x \<in> set (Defers (G' ! k)). attachedOk V F k x"
          using Suc.prems(3) i len unfolding res
          by (auto simp: nth_list_update)
        with s show ?thesis by simp
      next
        case False
        then have rd: "Unreadable d = None" by simp
        show ?thesis
        proof (cases "Err (G ! i) \<noteq> None")
          case True
          then show ?thesis using Suc.prems cur i rd by simp
        next
          case False
          define G1 where "G1 =
            (if TopmostDefer (G ! i) = None
             then G[i := (G ! i)\<lparr>TopmostDefer := Some (topdefer d)\<rparr>] else G)"
          have s1: "sameShape F G1"
            unfolding G1_def using sameShape_update [OF Suc.prems(2) i] Suc.prems(2)
            by simp
          have i1: "i < length G1" and l1: "length G1 = length F"
            using i len by (simp_all add: G1_def)
          have d1: "\<forall>k < length F. Defers (G1 ! k) = Defers (G ! k)"
            using i by (auto simp: G1_def nth_list_update)
          have a1: "\<forall>k < length F. \<forall>x \<in> set (Defers (G1 ! k)). attachedOk V F k x"
            using Suc.prems(3) d1 by simp
          have shp1: "SystemStack (G1 ! i) = SystemStack (F ! i)" "Inlined (G1 ! i) = Inlined (F ! i)"
            "Regs (G1 ! i) = Regs (F ! i)"
            using s1 i1 l1 by (simp_all add: sameShape_def)
          show ?thesis
          proof (cases "SystemStack (G1 ! i) \<or> Inlined (G1 ! i) \<or> SP d \<ge> CFA (Regs (G1 ! i))")
            case True
            have step: "readDefersLoop fuel dm G1 cur (i + 1) = Some G'"
              using Suc.prems(1) cur i rd False True by (simp add: G1_def Let_def)
            have inv: "\<forall>c. cur = Some c \<and> Unreadable c = None \<longrightarrow>
                (\<forall>j < i + 1. \<not> SystemStack (F ! j) \<and> \<not> Inlined (F ! j) \<longrightarrow> CFA (Regs (F ! j)) \<le> SP c)"
            proof (intro allI impI)
              fix c j
              assume c: "cur = Some c \<and> Unreadable c = None" and j: "j < i + 1"
                and nj: "\<not> SystemStack (F ! j) \<and> \<not> Inlined (F ! j)"
              show "CFA (Regs (F ! j)) \<le> SP c"
              proof (cases "j = i")
                case True
                then show ?thesis using \<open>SystemStack (G1 ! i) \<or> Inlined (G1 ! i) \<or> SP d \<ge> CFA (Regs (G1 ! i))\<close>
                    nj shp1 c cur by auto
              next
                case False
                then have "j < i" using j by simp
                then show ?thesis using Suc.prems(4) c nj by blast
              qed
            qed
            show ?thesis
              by (rule Suc.IH [OF step s1 a1 inv sameV])
          next
            case nadv: False
            define G2 where "G2 = G1[i := (G1 ! i)
                \<lparr>Defers := Defers (G1 ! i) @ (if length (rangefunc d) > 0 then rangefunc d else [d])\<rparr>]"
            have step: "readDefersLoop fuel dm G2 (deferNext dm d) i = Some G'"
              using Suc.prems(1) cur i rd False nadv by (simp add: G1_def G2_def Let_def)
            have s2: "sameShape F G2"
              unfolding G2_def by (rule sameShape_update [OF s1 i1]) simp_all
            have bel: "deferBelongs F i d"
              using nadv rd shp1 Suc.prems(4) cur
              by (auto simp: deferBelongs_def not_le)
            have new: "\<forall>x \<in> set (if length (rangefunc d) > 0 then rangefunc d else [d]).
                         attachedOk V F i x"
              unfolding attachedOk_def using bel dV by blast
            have a2: "\<forall>k < length F. \<forall>x \<in> set (Defers (G2 ! k)). attachedOk V F k x"
              using a1 new i1 l1 unfolding G2_def
              by (auto simp: nth_list_update split: if_splits)
            have inv: "\<forall>c. deferNext dm d = Some c \<and> Unreadable c = None \<longrightarrow>
                (\<forall>j < i. \<not> SystemStack (F ! j) \<and> \<not> Inlined (F ! j) \<longrightarrow> CFA (Regs (F ! j)) \<le> SP c)"
            proof (intro allI impI)
              fix c j
              assume c: "deferNext dm d = Some c \<and> Unreadable c = None" and j: "j < i"
                and nj: "\<not> SystemStack (F ! j) \<and> \<not> Inlined (F ! j)"
              have "CFA (Regs (F ! j)) \<le> SP d"
                using Suc.prems(4) cur rd j nj by blast
              moreover have "SP d \<le> SP c"
                using deferNext_SP c by blast
              ultimately show "CFA (Regs (F ! j)) \<le> SP c" by simp
            qed
            show ?thesis
              by (rule Suc.IH [OF step s2 a2 inv nextV])
          qed
        qed
      qed
    qed
  qed
qed


lemma readDefersLoop_numeral:
  "readDefersLoop (numeral k) dm frames curdefer i =
     (case curdefer of
        None \<Rightarrow> Some frames
      | Some d \<Rightarrow>
          if i \<ge> length frames then Some frames
          else if Unreadable d \<noteq> None then
            Some (frames[i := (frames ! i)\<lparr>Defers := Defers (frames ! i) @ [d]\<rparr>])
          else if Err (frames ! i) \<noteq> None then Some frames
          else
            let frames1 =
                  (if TopmostDefer (frames ! i) = None
                   then frames[i := (frames ! i)\<lparr>TopmostDefer := Some (topdefer d)\<rparr>]
                   else frames)
            in if SystemStack (frames1 ! i) \<or> Inlined (frames1 ! i)
                  \<or> SP d \<ge> CFA (Regs (frames1 ! i))
               then readDefersLoop (pred_numeral k) dm frames1 curdefer (i + 1)
               else
                 readDefersLoop (pred_numeral k) dm
                   (frames1[i := (frames1 ! i)
                       \<lparr>Defers := Defers (frames1 ! i) @
                          (if length (rangefunc d) > 0 then rangefunc d else [d])\<rparr>])
                   (deferNext dm d) i)"
  by (simp only: numeral_eq_Suc readDefersLoop.simps)

lemma deferChain_numeral:
  "deferChain (numeral k) dm cur =
     (case cur of None \<Rightarrow> [] | Some d \<Rightarrow> d # deferChain (pred_numeral k) dm (deferNext dm d))"
  by (cases cur) (simp_all only: numeral_eq_Suc deferChain.simps option.case)

lemmas ex_defer_defs =
  load_def loadFields_def newDefer_def deferNext_def setUnreadable_def topdefer_def Let_def

text \<open>
  C6. When the correlator has a readable defer \<open>d\<close> that lies in frame \<open>i\<close>
  (so that it attaches \<open>d\<close> and calls \<open>Next\<close>), \<open>d\<close> has a link, and the
  defer loaded from the link has an \<open>SP\<close> strictly below \<open>d.SP\<close>: \<open>Next\<close>
  returns the loaded defer marked \<open>Unreadable\<close> with \<open>errSPDecreased\<close>
  ("corrupted defer list: SP decreased"); the correlator appends that node to
  the \<open>Defers\<close> of the same frame \<open>i\<close>, after \<open>d\<close> (or the entries of
  \<open>d.rangefunc\<close>), and returns: two turns of the loop give the result,
  whatever follows in the list.
\<close>

theorem readDefers_SP_decreased:
  assumes "i < length frames" and "Unreadable d = None" and "Err (frames ! i) = None"
    and "\<not> SystemStack (frames ! i)" and "\<not> Inlined (frames ! i)"
    and "SP d < CFA (Regs (frames ! i))"
    and "link d = Some a" and "SP (load dm True (newDefer a)) < SP d"
  shows "deferNext dm d = Some (setUnreadable (load dm True (newDefer a)) errSPDecreased)
       \<and> Unreadable (setUnreadable (load dm True (newDefer a)) errSPDecreased) = Some errSPDecreased
       \<and> readDefersLoop (Suc (Suc fuel)) dm frames (Some d) i =
           Some (frames[i :=
                   (if TopmostDefer (frames ! i) = None
                    then (frames ! i)\<lparr>TopmostDefer := Some (topdefer d)\<rparr> else frames ! i)
                   \<lparr>Defers := Defers (frames ! i)
                              @ (if rangefunc d \<noteq> [] then rangefunc d else [d])
                              @ [setUnreadable (load dm True (newDefer a)) errSPDecreased]\<rparr>])"
proof -
  have n: "deferNext dm d = Some (setUnreadable (load dm True (newDefer a)) errSPDecreased)"
    using assms(7,8) by (simp add: deferNext_def Let_def)
  have u: "Unreadable (setUnreadable (load dm True (newDefer a)) errSPDecreased) = Some errSPDecreased"
    by (simp add: setUnreadable_def)
  have c: "\<not> CFA (Regs (frames ! i)) \<le> SP d"
    using assms(6) by (simp add: not_le)
  show ?thesis
  proof (cases "TopmostDefer (frames ! i)")
    case None
    then show ?thesis
      using assms(1-5) c n u by (simp add: Let_def)
  next
    case (Some t)
    then show ?thesis
      using assms(1-5) c n u by (simp add: Let_def)
  qed
qed

theorem readDefers_SP_decreased_witness:
  "readDefersLoop (Suc (Suc 0)) exDefersCorrupted [exFrameAt 0x1048, exFrameAt 0x1100]
     (Some (load exDefersCorrupted True (newDefer 0x7100))) 0 =
   Some [(exFrameAt 0x1048)
           \<lparr>TopmostDefer := Some (load exDefersCorrupted True (newDefer 0x7100)),
            Defers := [load exDefersCorrupted True (newDefer 0x7100),
                       setUnreadable (load exDefersCorrupted True (newDefer 0x7140)) errSPDecreased]\<rparr>,
         exFrameAt 0x1100]"
  using readDefers_SP_decreased
    [where i = 0 and frames = "[exFrameAt 0x1048, exFrameAt 0x1100]"
       and d = "load exDefersCorrupted True (newDefer 0x7100)" and a = "0x7140"
       and dm = exDefersCorrupted and fuel = 0]
  by (simp add: ex_defer_defs exDefersCorrupted_def exFrameAt_def zeroStackframe_def
      zeroDwarfRegisters_def)

text \<open>
  C4 as stated says that a defer attached to frame \<open>i\<close> has
  \<open>SP \<ge> frames[i+1].Regs.CFA\<close> unless \<open>i\<close> is the last frame. In the fifth
  scenario of the specification the defer with \<open>sp = 0x1000\<close> is attached to
  frame 0, frame 1 exists, and \<open>0x1000\<close> is below the CFA \<open>0x1048\<close> of frame 1.
\<close>

theorem readDefers_scenario5_counterexample:
  "(case readDefers 10 exDefers5 (Some (load exDefers5 True (newDefer 0x7000))) exFrames5 of
      None \<Rightarrow> False
    | Some frames' \<Rightarrow>
        map Defers frames' =
          [[load exDefers5 True (newDefer 0x7000)], [load exDefers5 True (newDefer 0x7040)], []]
        \<and> SP (load exDefers5 True (newDefer 0x7000)) = 0x1000
        \<and> CFA (Regs (frames' ! 0)) = 0x1008
        \<and> CFA (Regs (frames' ! 1)) = 0x1048
        \<and> \<not> (SP (load exDefers5 True (newDefer 0x7000)) \<ge> CFA (Regs (frames' ! (0 + 1)))))"
  by (simp add: readDefers_def readDefersLoop_numeral ex_defer_defs exDefers5_def exFrames5_def
      exFrameAt_def zeroStackframe_def zeroDwarfRegisters_def)

lemma readDefersLoop_step:
  assumes "i < length G" and "Unreadable d = None" and "Err (G ! i) = None"
  shows "readDefersLoop (Suc n) dm G (Some d) i =
           (let G1 = (if TopmostDefer (G ! i) = None
                      then G[i := (G ! i)\<lparr>TopmostDefer := Some (topdefer d)\<rparr>] else G)
            in if SystemStack (G ! i) \<or> Inlined (G ! i) \<or> SP d \<ge> CFA (Regs (G ! i))
               then readDefersLoop n dm G1 (Some d) (i + 1)
               else readDefersLoop n dm
                      (G1[i := (G1 ! i)\<lparr>Defers := Defers (G1 ! i) @
                            (if length (rangefunc d) > 0 then rangefunc d else [d])\<rparr>])
                      (deferNext dm d) i)"
  using assms by (simp add: Let_def)

text \<open>
  C4, amended. With a readable current defer and a frame without error, the
  cursor moves past frame \<open>i\<close> exactly when the frame is on the system stack,
  is inlined, or the defer's \<open>SP\<close> is at or above the frame's CFA (compared as
  \<open>uint64\<close>); otherwise the defer (or the entries of its \<open>rangefunc\<close> list)
  is attached to frame \<open>i\<close> and the walk goes to \<open>Next\<close>. Consequently,
  starting from frames without defers, every defer \<open>d\<close> found on frame \<open>i\<close> of
  the result comes from a defer \<open>c\<close> of the list the walk follows
  (\<open>g.Defer()\<close> and its successors under \<open>Next\<close>), in one of two ways. Either
  \<open>c\<close> is unreadable and \<open>d\<close> is \<open>c\<close>, attached without any comparison. Or
  \<open>c\<close> is readable, frame \<open>i\<close> is neither on the system stack nor inlined,
  \<open>c.SP < frames[i].Regs.CFA\<close>, \<open>c.SP \<ge> frames[j].Regs.CFA\<close> for every
  earlier frame \<open>j < i\<close> that is neither on the system stack nor inlined, and
  \<open>d\<close> is \<open>c\<close> itself when \<open>c.rangefunc\<close> is empty, an entry of
  \<open>c.rangefunc\<close> otherwise. In particular, when no defer of the list has
  \<open>rangefunc\<close> entries, every readable defer \<open>d\<close> found on frame \<open>i\<close> has
  \<open>d.SP < frames[i].Regs.CFA\<close> and \<open>d.SP \<ge> frames[j].Regs.CFA\<close> for those
  earlier frames. The frames keep their other fields.
\<close>

theorem readDefers_attached:
  assumes "readDefers fuel dm curdefer frames = Some frames'"
    and "\<forall>fr \<in> set frames. Defers fr = []"
  shows "(\<forall>n G d i. i < length G \<and> Unreadable d = None \<and> Err (G ! i) = None \<longrightarrow>
            readDefersLoop (Suc n) dm G (Some d) i =
              (let G1 = (if TopmostDefer (G ! i) = None
                         then G[i := (G ! i)\<lparr>TopmostDefer := Some (topdefer d)\<rparr>] else G)
               in if SystemStack (G ! i) \<or> Inlined (G ! i) \<or> SP d \<ge> CFA (Regs (G ! i))
                  then readDefersLoop n dm G1 (Some d) (i + 1)
                  else readDefersLoop n dm
                         (G1[i := (G1 ! i)\<lparr>Defers := Defers (G1 ! i) @
                               (if length (rangefunc d) > 0 then rangefunc d else [d])\<rparr>])
                         (deferNext dm d) i))
       \<and> sameShape frames frames'
       \<and> (\<forall>i < length frames. \<forall>d \<in> set (Defers (frames' ! i)).
             attachedOk (deferChain fuel dm curdefer) frames i d)
       \<and> ((\<forall>c \<in> set (deferChain fuel dm curdefer). rangefunc c = []) \<longrightarrow>
            (\<forall>i < length frames. \<forall>d \<in> set (Defers (frames' ! i)).
               Unreadable d \<noteq> None \<or> deferBelongs frames i d))"
proof (intro conjI)
  show "\<forall>n G d i. i < length G \<and> Unreadable d = None \<and> Err (G ! i) = None \<longrightarrow>
            readDefersLoop (Suc n) dm G (Some d) i =
              (let G1 = (if TopmostDefer (G ! i) = None
                         then G[i := (G ! i)\<lparr>TopmostDefer := Some (topdefer d)\<rparr>] else G)
               in if SystemStack (G ! i) \<or> Inlined (G ! i) \<or> SP d \<ge> CFA (Regs (G ! i))
                  then readDefersLoop n dm G1 (Some d) (i + 1)
                  else readDefersLoop n dm
                         (G1[i := (G1 ! i)\<lparr>Defers := Defers (G1 ! i) @
                               (if length (rangefunc d) > 0 then rangefunc d else [d])\<rparr>])
                         (deferNext dm d) i)"
    by (intro allI impI) (rule readDefersLoop_step, simp_all)
  have l: "readDefersLoop fuel dm frames curdefer 0 = Some frames'"
    using assms(1) by (simp add: readDefers_def)
  have a0: "\<forall>k < length frames. \<forall>d \<in> set (Defers (frames ! k)).
              attachedOk (deferChain fuel dm curdefer) frames k d"
    using assms(2) by simp
  have inv: "sameShape frames frames' \<and>
        (\<forall>k < length frames. \<forall>d \<in> set (Defers (frames' ! k)).
           attachedOk (deferChain fuel dm curdefer) frames k d)"
    by (rule readDefersLoop_invariant [OF l sameShape_refl a0]) simp_all
  show "sameShape frames frames'"
    by (rule conjunct1 [OF inv])
  show att: "\<forall>i < length frames. \<forall>d \<in> set (Defers (frames' ! i)).
          attachedOk (deferChain fuel dm curdefer) frames i d"
    by (rule conjunct2 [OF inv])
  show "(\<forall>c \<in> set (deferChain fuel dm curdefer). rangefunc c = []) \<longrightarrow>
          (\<forall>i < length frames. \<forall>d \<in> set (Defers (frames' ! i)).
             Unreadable d \<noteq> None \<or> deferBelongs frames i d)"
  proof (intro impI allI ballI)
    fix i d
    assume nr: "\<forall>c \<in> set (deferChain fuel dm curdefer). rangefunc c = []"
      and i: "i < length frames" and d: "d \<in> set (Defers (frames' ! i))"
    have "attachedOk (deferChain fuel dm curdefer) frames i d"
      using att i d by blast
    then obtain c where c: "c \<in> set (deferChain fuel dm curdefer)"
      and cs: "(Unreadable c \<noteq> None \<and> d = c) \<or>
               (deferBelongs frames i c \<and>
                d \<in> set (if length (rangefunc c) > 0 then rangefunc c else [c]))"
      unfolding attachedOk_def by blast
    have "rangefunc c = []"
      using nr c by blast
    then show "Unreadable d \<noteq> None \<or> deferBelongs frames i d"
      using cs by auto
  qed
qed

text \<open>
  On the fifth scenario the theorem places the defer with \<open>sp = 0x1040\<close>,
  found on frame 1, in frame 1: it is below the CFA \<open>0x1048\<close> of frame 1 and
  at or above the CFA \<open>0x1008\<close> of frame 0.
\<close>

theorem readDefers_attached_witness:
  "attachedOk (deferChain 10 exDefers5 (Some (load exDefers5 True (newDefer 0x7000))))
     exFrames5 1 (load exDefers5 True (newDefer 0x7040))
   \<and> deferBelongs exFrames5 1 (load exDefers5 True (newDefer 0x7040))"
proof -
  let ?d0 = "load exDefers5 True (newDefer 0x7000)"
  let ?d1 = "load exDefers5 True (newDefer 0x7040)"
  let ?F = "[(exFrameAt 0x1008)\<lparr>TopmostDefer := Some ?d0, Defers := [?d0]\<rparr>,
             (exFrameAt 0x1048)\<lparr>TopmostDefer := Some ?d1, Defers := [?d1]\<rparr>,
             exFrameAt 0x1100]"
  have r: "readDefers 10 exDefers5 (Some ?d0) exFrames5 = Some ?F"
    by (simp add: readDefers_def readDefersLoop_numeral ex_defer_defs exDefers5_def exFrames5_def
        exFrameAt_def zeroStackframe_def zeroDwarfRegisters_def)
  have e: "\<forall>fr \<in> set exFrames5. Defers fr = []"
    by (simp add: exFrames5_def exFrameAt_def zeroStackframe_def)
  have n: "\<forall>c \<in> set (deferChain 10 exDefers5 (Some ?d0)). rangefunc c = []"
    by (simp add: deferChain_numeral ex_defer_defs exDefers5_def)
  have u: "Unreadable ?d1 = None"
    by (simp add: ex_defer_defs exDefers5_def)
  note t = readDefers_attached [OF r e]
  have "\<forall>i < length exFrames5. \<forall>d \<in> set (Defers (?F ! i)).
          attachedOk (deferChain 10 exDefers5 (Some ?d0)) exFrames5 i d"
    by (rule conjunct1 [OF conjunct2 [OF conjunct2 [OF t]]])
  then have a: "attachedOk (deferChain 10 exDefers5 (Some ?d0)) exFrames5 1 ?d1"
    by (simp add: exFrames5_def)
  have "\<forall>i < length exFrames5. \<forall>d \<in> set (Defers (?F ! i)).
          Unreadable d \<noteq> None \<or> deferBelongs exFrames5 i d"
    by (rule mp [OF conjunct2 [OF conjunct2 [OF conjunct2 [OF t]]] n])
  then have "Unreadable ?d1 \<noteq> None \<or> deferBelongs exFrames5 1 ?d1"
    by (simp add: exFrames5_def)
  then have b: "deferBelongs exFrames5 1 ?d1"
    using u by simp
  show ?thesis
    using a b by simp
qed

text \<open>
  The predicate tells frames apart: on the same scenario the defer with
  \<open>sp = 0x1040\<close> would not be accepted on frame 0, whose CFA is \<open>0x1008\<close>, nor
  would a defer the walk never visits be accepted on any frame.
\<close>

lemma attachedOk_scenario5_rejects:
  "\<not> attachedOk (deferChain 10 exDefers5 (Some (load exDefers5 True (newDefer 0x7000))))
       exFrames5 0 (load exDefers5 True (newDefer 0x7040))
   \<and> \<not> attachedOk (deferChain 10 exDefers5 (Some (load exDefers5 True (newDefer 0x7000))))
         exFrames5 1 (load exDefers5 True (newDefer 0x9000))"
  by (simp add: attachedOk_def deferChain_numeral deferNext_def deferBelongs_def ex_defer_defs
      exDefers5_def exFrames5_def exFrameAt_def zeroStackframe_def zeroDwarfRegisters_def)

subsection \<open>Inline expansion\<close>

lemma sharesFrame_refl: "sharesFrame F F"
  by (simp add: sharesFrame_def)

text \<open>
  A callback \<open>cb\<close> logs its frames under \<open>proj\<close> when \<open>proj\<close> of its variables
  grows by exactly the frame of each call.
\<close>

lemma inlineLoop_log:
  assumes "\<And>s f. proj (fst (cb s f)) = proj s @ [f]"
    and "inlineLoop bi cb entries (it, s, fr) = Ok (it', s', fr')"
  shows "\<exists>syn. proj s' = proj s @ syn \<and>
           (\<forall>x \<in> set syn. Inlined x \<and> \<not> Bottom x \<and> Err x = Err fr \<and> sharesFrame fr x) \<and>
           sharesFrame fr fr' \<and> Bottom fr' = Bottom fr \<and> Inlined fr' = Inlined fr \<and>
           Err fr' = Err fr \<and> SystemStack fr' = SystemStack fr \<and>
           (hasInlines fr \<longrightarrow> hasInlines fr') \<and> (syn \<noteq> [] \<longrightarrow> hasInlines fr')"
  using assms(2)
proof (induction entries arbitrary: it s fr)
  case Nil
  then show ?case by (simp add: sharesFrame_def)
next
  case (Cons entry entries)
  let ?fr = "fr\<lparr>hasInlines := True\<rparr>"
  show ?case
  proof (cases "\<exists>fnname fileidx line curfn filepath callfn.
      entName entry = Some fnname \<and> entCallFile entry = Some fileidx \<and> entCallLine entry = Some line
      \<and> Fn (Current fr) = Some curfn \<and> filePath bi (cu curfn) fileidx = Inr filepath
      \<and> Fn (Call fr) = Some callfn")
    case False
    then have "it' = it \<and> s' = s \<and> fr' = ?fr"
      using Cons.prems
      by (auto simp: Let_def split: option.splits sum.splits)
    then show ?thesis by (simp add: sharesFrame_def)
  next
    case True
    then obtain fnname fileidx line curfn filepath callfn where
      h: "entName entry = Some fnname" "entCallFile entry = Some fileidx"
         "entCallLine entry = Some line" "Fn (Current fr) = Some curfn"
         "filePath bi (cu curfn) fileidx = Inr filepath" "Fn (Call fr) = Some callfn"
      by blast
    define inlfn where "inlfn = \<lparr>Name = fnname, Entry = Entry callfn, End = End callfn,
                                  offset = entOffset entry, cu = cu callfn\<rparr>"
    define x where "x = inlineFrame ?fr inlfn"
    define fr1 where "fr1 = ?fr\<lparr>Call := (Call ?fr)\<lparr>File := filepath, Line := line\<rparr>\<rparr>"
    have step: "inlineLoop bi cb entries (it\<lparr>count := count it + 1\<rparr>, fst (cb s x), fr1)
                = Ok (it', s', fr')"
      using Cons.prems h
      by (simp add: Let_def inlfn_def x_def fr1_def)
    from Cons.IH [OF step] obtain syn where
      ih: "proj s' = proj (fst (cb s x)) @ syn"
          "\<forall>y \<in> set syn. Inlined y \<and> \<not> Bottom y \<and> Err y = Err fr1 \<and> sharesFrame fr1 y"
          "sharesFrame fr1 fr'" "Bottom fr' = Bottom fr1" "Inlined fr' = Inlined fr1"
          "Err fr' = Err fr1" "SystemStack fr' = SystemStack fr1"
          "hasInlines fr1 \<longrightarrow> hasInlines fr'"
      by blast
    have xs: "Inlined x \<and> \<not> Bottom x \<and> Err x = Err fr \<and> sharesFrame fr x"
      by (simp add: x_def inlineFrame_def sharesFrame_def zeroStackframe_def)
    have f1: "sharesFrame fr fr1" "Bottom fr1 = Bottom fr" "Inlined fr1 = Inlined fr"
      "Err fr1 = Err fr" "SystemStack fr1 = SystemStack fr" "hasInlines fr1"
      by (simp_all add: fr1_def sharesFrame_def)
    have tr: "\<And>y. sharesFrame fr1 y \<Longrightarrow> sharesFrame fr y"
      using f1(1) by (simp add: sharesFrame_def)
    have c1: "proj s' = proj s @ (x # syn)"
      using ih(1) assms(1) by simp
    have c2: "\<forall>y \<in> set (x # syn). Inlined y \<and> \<not> Bottom y \<and> Err y = Err fr \<and> sharesFrame fr y"
      using xs ih(2) tr f1(4) by auto
    have c3: "sharesFrame fr fr'"
      using ih(3) tr by blast
    have c4: "hasInlines fr'"
      using ih(8) f1(6) by simp
    have c5: "Bottom fr' = Bottom fr \<and> Inlined fr' = Inlined fr \<and> Err fr' = Err fr
              \<and> SystemStack fr' = SystemStack fr"
      using ih(4-7) f1(2-5) by simp
    show ?thesis
      using c1 c2 c3 c4 c5 by (intro exI [of _ "x # syn"]) simp
  qed
qed

lemma appendInlineCalls_log:
  assumes p: "\<And>s f. proj (fst (cb s f)) = proj s @ [f]"
    and a: "appendInlineCalls bi cb it s F = Ok (it', s', again)"
  shows "\<exists>syn F' s1. proj s' = proj s @ syn @ [F'] \<and> proj s1 = proj s @ syn \<and>
           cb s1 F' = (s', again) \<and>
           (\<forall>x \<in> set syn. Inlined x \<and> \<not> Bottom x \<and> Err x = Err F \<and> sharesFrame F x) \<and>
           (syn \<noteq> [] \<longrightarrow> hasInlines F') \<and>
           sharesFrame F F' \<and> Inlined F' = Inlined F \<and> Bottom F' = Bottom F \<and>
           Err F' = Err F \<and> SystemStack F' = SystemStack F"
proof -
  have deliver: "\<And>it0 s0 fr0. deliverFrame cb it0 s0 fr0 = (it', s', again)
     \<Longrightarrow> cb s0 fr0 = (s', again) \<and> proj s' = proj s0 @ [fr0]"
  proof -
    fix it0 s0 fr0
    assume "deliverFrame cb it0 s0 fr0 = (it', s', again)"
    then have c: "cb s0 fr0 = (s', again)"
      by (auto simp: deliverFrame_def split: prod.splits)
    then have "fst (cb s0 fr0) = s'" by simp
    then show "cb s0 fr0 = (s', again) \<and> proj s' = proj s0 @ [fr0]"
      using p [of s0 fr0] c by simp
  qed
  show ?thesis
  proof (cases "\<exists>callfn dwarfTree. Fn (Call F) = Some callfn \<and> lineInfoPresent (cu callfn)
      \<and> getDwarfTree bi callfn = Inr dwarfTree")
    case False
    then have "deliverFrame cb it s F = (it', s', again)"
      using a by (auto simp: appendInlineCalls_def Let_def split: option.splits sum.splits if_splits)
    from deliver [OF this] have d: "cb s F = (s', again)" "proj s' = proj s @ [F]"
      by simp_all
    show ?thesis
      using d sharesFrame_refl [of F]
      by (intro exI [of _ "[]"] exI [of _ F] exI [of _ s]) simp
  next
    case True
    then obtain callfn dwarfTree where
      h: "Fn (Call F) = Some callfn" "lineInfoPresent (cu callfn)"
         "getDwarfTree bi callfn = Inr dwarfTree"
      by blast
    define callpc where "callpc = (if count it > 0 then PC (Call F) - 1 else PC (Call F))"
    obtain it1 s1 fr1 where
      l: "inlineLoop bi cb (InlineStack bi dwarfTree callpc) (it, s, F) = Ok (it1, s1, fr1)"
      and d: "deliverFrame cb it1 s1 fr1 = (it', s', again)"
      using a h
      by (auto simp: appendInlineCalls_def Let_def callpc_def split: outcome.splits)
    from inlineLoop_log [of proj cb, OF p l] obtain syn where
      s: "proj s1 = proj s @ syn"
         "\<forall>x \<in> set syn. Inlined x \<and> \<not> Bottom x \<and> Err x = Err F \<and> sharesFrame F x"
         "sharesFrame F fr1" "Bottom fr1 = Bottom F" "Inlined fr1 = Inlined F"
         "Err fr1 = Err F" "SystemStack fr1 = SystemStack F"
         "syn \<noteq> [] \<longrightarrow> hasInlines fr1"
      by blast
    from deliver [OF d] have d2: "cb s1 fr1 = (s', again)" "proj s' = proj s1 @ [fr1]"
      by simp_all
    show ?thesis
      using d2 s by (intro exI [of _ syn] exI [of _ fr1] exI [of _ s1]) simp
  qed
qed

lemma recording_logs: "snd (fst (recording cb v f)) = snd v @ [f]"
  by (simp add: recording_def split: prod.splits)

lemma appendFrameUpTo_logs: "fst (appendFrameUpTo depth frames f) = frames @ [f]"
  by (simp add: appendFrameUpTo_def)

text \<open>
  C5. Whatever the callback, look at the frames \<open>appendInlineCalls\<close> hands to it
  for a physical frame \<open>F\<close>: they are the synthetic frames followed by one
  last frame \<open>F'\<close>, the physical frame as delivered. Every synthetic frame has
  \<open>Inlined = true\<close> and the \<open>Current\<close> location, \<open>Regs\<close>, \<open>Ret\<close> and
  \<open>stackHi\<close> of \<open>F\<close>; so has \<open>F'\<close>; and when there is at least one
  synthetic frame, \<open>F'\<close> has \<open>hasInlines = true\<close>.
\<close>

theorem appendInlineCalls_frames:
  assumes "appendInlineCalls bi (recording cb) it (s, []) F = Ok (it', (s', log), again)"
  shows "\<exists>syn F'. log = syn @ [F'] \<and>
           (\<forall>x \<in> set syn. Inlined x \<and> sharesFrame F x) \<and>
           (syn \<noteq> [] \<longrightarrow> hasInlines F') \<and>
           sharesFrame F F' \<and> Inlined F' = Inlined F"
proof -
  from appendInlineCalls_log [of snd "recording cb", OF recording_logs assms]
  obtain syn F' where
    "snd (s', log) = snd (s, []) @ syn @ [F']"
    "\<forall>x \<in> set syn. Inlined x \<and> \<not> Bottom x \<and> Err x = Err F \<and> sharesFrame F x"
    "syn \<noteq> [] \<longrightarrow> hasInlines F'" "sharesFrame F F'" "Inlined F' = Inlined F"
    by blast
  then show ?thesis
    by (intro exI [of _ syn] exI [of _ F']) simp
qed

lemmas ex_inline_defs =
  exInlineBinaryInfo_def exBinaryInfo_def exFooEntry_def exBarFn_def exUserCU_def
  exBarFrame_def exThreadIterator_def

theorem appendInlineCalls_frames_witness:
  "\<exists>syn F'.
     [inlineFrame (exBarFrame\<lparr>hasInlines := True\<rparr>)
        \<lparr>Name = ''main.foo'', Entry = 0x402000, End = 0x402100, offset = 230, cu = exUserCU\<rparr>,
      exBarFrame\<lparr>hasInlines := True,
                 Call := (Call exBarFrame)\<lparr>File := ''bar.go'', Line := 10\<rparr>\<rparr>]
       = syn @ [F'] \<and>
     (\<forall>x \<in> set syn. Inlined x \<and> sharesFrame exBarFrame x) \<and>
     (syn \<noteq> [] \<longrightarrow> hasInlines F') \<and>
     sharesFrame exBarFrame F' \<and> Inlined F' = Inlined exBarFrame"
proof -
  have e: "appendInlineCalls exInlineBinaryInfo (recording (appendFrameUpTo 0)) exThreadIterator
             ([], []) exBarFrame =
           Ok (exThreadIterator\<lparr>count := 2\<rparr>,
               ([inlineFrame (exBarFrame\<lparr>hasInlines := True\<rparr>)
                   \<lparr>Name = ''main.foo'', Entry = 0x402000, End = 0x402100, offset = 230,
                      cu = exUserCU\<rparr>,
                 exBarFrame\<lparr>hasInlines := True,
                            Call := (Call exBarFrame)\<lparr>File := ''bar.go'', Line := 10\<rparr>\<rparr>],
                [inlineFrame (exBarFrame\<lparr>hasInlines := True\<rparr>)
                   \<lparr>Name = ''main.foo'', Entry = 0x402000, End = 0x402100, offset = 230,
                      cu = exUserCU\<rparr>,
                 exBarFrame\<lparr>hasInlines := True,
                            Call := (Call exBarFrame)\<lparr>File := ''bar.go'', Line := 10\<rparr>\<rparr>]),
               False)"
    by (simp add: appendInlineCalls_def deliverFrame_def recording_def appendFrameUpTo_def
        Let_def ex_inline_defs newStackIterator_def zeroStackframe_def)
  show ?thesis
    by (rule appendInlineCalls_frames [OF e])
qed

subsection \<open>The end of the stack\<close>

lemma stacktraceLoop_numeral:
  "stacktraceLoop (numeral k) bi sw cb it s =
     (case Next bi sw it of
        Panic \<Rightarrow> Some Panic
      | Ok (again, it1) \<Rightarrow>
          if \<not> again then Some (Ok (it1, s))
          else
            case Frame it1 of
              (it2, fr) \<Rightarrow>
                (case appendInlineCalls bi cb it2 s fr of
                   Panic \<Rightarrow> Some Panic
                 | Ok (it3, s', again) \<Rightarrow>
                     if again then stacktraceLoop (pred_numeral k) bi sw cb it3 s'
                     else Some (Ok (it3, s'))))"
  by (simp only: numeral_eq_Suc stacktraceLoop.simps)

lemmas ex_trace_defs =
  GoroutineStacktrace_def goroutineStackIterator_def stacktrace_def stacktraceFunc_def
  stacktraceLoop_numeral Next_def Frame_def advanceRegs_def newStackframe_def sigtrampHop_def
  appendInlineCalls_def deliverFrame_def appendFrameUpTo_def restartFromG_def
  stacktraceResult_def executeFrameRegRule_def prevFrameIsSigpanic_def frameIsSigpanic_def
  arm64SwitchStack_def switchToG_def switchToGoroutineStack_def setRegUint64Val_def
  StacktraceSimple_def StacktraceG_def StacktraceReadDefers_def Let_def

lemmas ex_step_defs =
  Next_def Frame_def advanceRegs_def newStackframe_def sigtrampHop_def
  appendInlineCalls_def deliverFrame_def appendFrameUpTo_def
  executeFrameRegRule_def prevFrameIsSigpanic_def frameIsSigpanic_def
  arm64SwitchStack_def arm64SwitchStackCaller_def switchToG_def switchToGoroutineStack_def
  setRegUint64Val_def StacktraceSimple_def StacktraceG_def StacktraceReadDefers_def Let_def
  zeroStackframe_def zeroLocation_def


lemma Next_stopped: "err it \<noteq> None \<or> atend it \<Longrightarrow> Next bi sw it = Ok (False, it)"
  by (auto simp: Next_def)

lemma Next_active:
  assumes "err it = None" and "\<not> atend it" and "Next bi sw it = Ok (b, it')"
  shows "b"
  using assms
  by (auto simp: Next_def Let_def split: prod.splits option.splits outcome.splits if_splits)

lemma inlineLoop_count:
  "inlineLoop bi cb entries (it, s, fr) = Ok (it', s', fr') \<Longrightarrow>
   \<exists>n. it' = it\<lparr>count := n\<rparr>"
proof (induction entries arbitrary: it s fr)
  case Nil
  then have "it' = it\<lparr>count := count it\<rparr>" by simp
  then show ?case by blast
next
  case (Cons entry entries)
  show ?case
  proof (cases "\<exists>fnname fileidx line curfn filepath callfn.
      entName entry = Some fnname \<and> entCallFile entry = Some fileidx \<and> entCallLine entry = Some line
      \<and> Fn (Current fr) = Some curfn \<and> filePath bi (cu curfn) fileidx = Inr filepath
      \<and> Fn (Call fr) = Some callfn")
    case False
    then have "it' = it\<lparr>count := count it\<rparr>"
      using Cons.prems
      by (auto simp: Let_def split: option.splits sum.splits)
    then show ?thesis by blast
  next
    case True
    then obtain s1 fr1 where
      "inlineLoop bi cb entries (it\<lparr>count := count it + 1\<rparr>, s1, fr1) = Ok (it', s', fr')"
      using Cons.prems by (auto simp: Let_def)
    from Cons.IH [OF this] obtain n where "it' = it\<lparr>count := count it + 1, count := n\<rparr>"
      by auto
    then have "it' = it\<lparr>count := n\<rparr>" by simp
    then show ?thesis by blast
  qed
qed

lemma appendInlineCalls_count:
  assumes "appendInlineCalls bi cb it s F = Ok (it', s', again)"
  shows "\<exists>n. it' = it\<lparr>count := n\<rparr>"
proof -
  have deliver: "\<And>it0 s0 fr0. deliverFrame cb it0 s0 fr0 = (it', s', again)
     \<Longrightarrow> it' = it0\<lparr>count := count it0 + 1\<rparr>"
    by (auto simp: deliverFrame_def split: prod.splits)
  show ?thesis
  proof (cases "\<exists>callfn dwarfTree. Fn (Call F) = Some callfn \<and> lineInfoPresent (cu callfn)
      \<and> getDwarfTree bi callfn = Inr dwarfTree")
    case False
    then have "deliverFrame cb it s F = (it', s', again)"
      using assms by (auto simp: appendInlineCalls_def Let_def split: option.splits sum.splits if_splits)
    from deliver [OF this] show ?thesis by blast
  next
    case True
    then obtain callfn dwarfTree where
      h: "Fn (Call F) = Some callfn" "lineInfoPresent (cu callfn)"
         "getDwarfTree bi callfn = Inr dwarfTree"
      by blast
    define callpc where "callpc = (if count it > 0 then PC (Call F) - 1 else PC (Call F))"
    obtain it1 s1 fr1 where
      l: "inlineLoop bi cb (InlineStack bi dwarfTree callpc) (it, s, F) = Ok (it1, s1, fr1)"
      and d: "deliverFrame cb it1 s1 fr1 = (it', s', again)"
      using assms h
      by (auto simp: appendInlineCalls_def Let_def callpc_def split: outcome.splits)
    from inlineLoop_count [OF l] obtain n where n: "it1 = it\<lparr>count := n\<rparr>" by blast
    from deliver [OF d] have "it' = it\<lparr>count := n + 1\<rparr>"
      using n by simp
    then show ?thesis by blast
  qed
qed

lemma Next_ret_zero:
  assumes "err it = None" and "\<not> atend it"
    and "advanceRegs bi it = (it1, callFrameRegs, ret, retaddr)"
    and "newStackframe bi it1 ret retaddr = (it2, fr)"
    and "sigtrampHop bi (it2\<lparr>frame := fr\<rparr>) = None"
    and "(if opts it2 AND StacktraceSimple = 0 then sw (it2\<lparr>frame := fr\<rparr>) callFrameRegs
          else Ok (False, it2\<lparr>frame := fr\<rparr>, callFrameRegs)) = Ok (False, it4, callFrameRegs')"
    and "Ret (frame it4) = 0"
  shows "Next bi sw it = Ok (True, it4\<lparr>atend := True\<rparr>)"
  using assms by (simp add: Next_def Let_def)

text \<open>
  C3 as stated: whenever the return address computed for a frame is zero, the
  trace would complete without an error frame. It fails when the zero comes
  with an error: the parked goroutine \<open>exParkedG\<close> stands at a pc without frame
  descriptor entry, the return address slot at \<open>CFA - 8\<close> cannot be read, so
  \<open>advanceRegs\<close> records the read error and leaves \<open>ret\<close> at zero, and the
  link register is zero too. The frame is delivered with \<open>Bottom = true\<close> and
  iteration stops, but \<open>stacktrace\<close> appends the error frame.
\<close>

theorem stacktrace_ret_zero_counterexample:
  "GoroutineStacktrace 10 (exBinaryInfo\<lparr>frameContextAt := (\<lambda>pc0. exNoFDEContext)\<rparr>)
     (arm64SwitchStack (exBinaryInfo\<lparr>frameContextAt := (\<lambda>pc0. exNoFDEContext)\<rparr>))
     arm64AddrAndStackRegsToDwarfRegisters exDeferReader True exParkedG 10 0 =
   Some (Ok (Inr
     [zeroStackframe
        \<lparr>Current := \<lparr>PC = 0x402040, File = ''?'', Line = - 1, Fn = None\<rparr>,
         Call := \<lparr>PC = 0x402040, File = ''?'', Line = - 1, Fn = None\<rparr>,
         Regs := (arm64AddrAndStackRegsToDwarfRegisters 0 0x402040 0xC000010000 0xC000010008 0)
                   \<lparr>CFA := 0xC000010018\<rparr>,
         stackHi := 0xC000020000, Ret := 0, Bottom := True, lastpc := 0x402040\<rparr>,
      zeroStackframe\<lparr>Err := Some (ErrExternal ''unmapped'')\<rparr>]))"
  by (simp add: ex_trace_defs ex_regs_defs ex_bi_defs exNoFDEContext_def exParkedG_def
      zeroStackframe_def zeroLocation_def)

text \<open>
  C3, amended. Take a call of \<open>Next\<close> on an iterator that has no error and is
  not at the end, in which neither the signal trampoline hop nor the stack
  switch takes over, the frame has a return address of zero and no error has
  been recorded. Then \<open>Next\<close> marks the end of the stack and returns true;
  the frame is delivered with \<open>Bottom = true\<close> (after its synthetic inline
  frames, which are not bottom frames); the loop of \<open>stacktraceFunc\<close> ends
  there, the next call of \<open>Next\<close> returning false; and \<open>stacktrace\<close> neither
  restarts nor appends an error frame: it returns the frames collected.
\<close>

theorem stacktraceLoop_ret_zero:
  assumes "err it = None" and "\<not> atend it"
    and "advanceRegs bi it = (it1, callFrameRegs, ret, retaddr)"
    and "newStackframe bi it1 ret retaddr = (it2, fr)"
    and "sigtrampHop bi (it2\<lparr>frame := fr\<rparr>) = None"
    and "(if opts it2 AND StacktraceSimple = 0 then sw (it2\<lparr>frame := fr\<rparr>) callFrameRegs
          else Ok (False, it2\<lparr>frame := fr\<rparr>, callFrameRegs)) = Ok (False, it4, callFrameRegs')"
    and "Ret (frame it4) = 0"
    and "err it4 = None"
    and "appendInlineCalls bi (appendFrameUpTo depth) (fst (Frame (it4\<lparr>atend := True\<rparr>))) sofar
           (snd (Frame (it4\<lparr>atend := True\<rparr>))) = Ok (it6, frames', again)"
  shows "Next bi sw it = Ok (True, it4\<lparr>atend := True\<rparr>)
       \<and> (\<exists>syn F. frames' = sofar @ syn @ [F] \<and> Bottom F \<and> Ret F = 0 \<and>
                    (\<forall>x \<in> set syn. Inlined x \<and> \<not> Bottom x))
       \<and> stacktraceLoop (Suc (Suc fuel)) bi sw (appendFrameUpTo depth) it sofar
           = Some (Ok (it6, frames'))
       \<and> Next bi sw it6 = Ok (False, it6)
       \<and> err it6 = None
       \<and> \<not> restartFromG it6 frames'
       \<and> stacktraceResult it6 frames' = Inr frames'"
proof -
  define it5 where "it5 = fst (Frame (it4\<lparr>atend := True\<rparr>))"
  define F0 where "F0 = snd (Frame (it4\<lparr>atend := True\<rparr>))"
  have nx: "Next bi sw it = Ok (True, it4\<lparr>atend := True\<rparr>)"
    using assms(1-7) by (simp add: Next_def Let_def)
  have fr: "Frame (it4\<lparr>atend := True\<rparr>) = (it5, F0)"
    by (simp add: it5_def F0_def)
  have F0: "Bottom F0" "Ret F0 = 0"
    using assms(7) by (simp_all add: F0_def Frame_def Let_def)
  have it5: "err it5 = None" "atend it5"
    using assms(8) by (simp_all add: it5_def Frame_def Let_def)
  have ap: "appendInlineCalls bi (appendFrameUpTo depth) it5 sofar F0 = Ok (it6, frames', again)"
    using assms(9) by (simp add: it5_def F0_def)
  from appendInlineCalls_count [OF ap] obtain n where n: "it6 = it5\<lparr>count := n\<rparr>"
    by blast
  have it6: "err it6 = None" "atend it6"
    using it5 n by simp_all
  have stop: "Next bi sw it6 = Ok (False, it6)"
    using it6 by (simp add: Next_stopped)
  from appendInlineCalls_log [of "\<lambda>x. x" "appendFrameUpTo depth", OF appendFrameUpTo_logs ap]
  obtain syn F where
    lg: "frames' = sofar @ syn @ [F]"
        "\<forall>x \<in> set syn. Inlined x \<and> \<not> Bottom x \<and> Err x = Err F0 \<and> sharesFrame F0 x"
        "sharesFrame F0 F" "Bottom F = Bottom F0"
    by blast
  have ex: "\<exists>syn F. frames' = sofar @ syn @ [F] \<and> Bottom F \<and> Ret F = 0 \<and>
                    (\<forall>x \<in> set syn. Inlined x \<and> \<not> Bottom x)"
    using lg F0 by (intro exI [of _ syn] exI [of _ F]) (simp add: sharesFrame_def)
  have loop: "stacktraceLoop (Suc (Suc fuel)) bi sw (appendFrameUpTo depth) it sofar
           = Some (Ok (it6, frames'))"
    using nx fr ap stop by simp
  have nr: "\<not> restartFromG it6 frames'"
    using it6 by (simp add: restartFromG_def)
  have res: "stacktraceResult it6 frames' = Inr frames'"
    using it6 by (simp add: stacktraceResult_def)
  show ?thesis
    using nx ex loop stop it6(1) nr res by blast
qed

theorem stacktraceLoop_ret_zero_witness:
  "\<exists>it' frames syn F.
     stacktraceLoop (Suc (Suc 0)) exBinaryInfo (arm64SwitchStack exBinaryInfo)
       (appendFrameUpTo 10) exThreadIterator [] = Some (Ok (it', frames))
     \<and> frames = [] @ syn @ [F] \<and> Bottom F \<and> Ret F = 0
     \<and> err it' = None \<and> stacktraceResult it' frames = Inr frames"
proof -
  let ?bi = exBinaryInfo
  let ?sw = "arm64SwitchStack exBinaryInfo"
  let ?it = exThreadIterator
  let ?a = "advanceRegs ?bi ?it"
  let ?n = "newStackframe ?bi (fst ?a) (fst (snd (snd ?a))) (snd (snd (snd ?a)))"
  let ?it3 = "(fst ?n)\<lparr>frame := snd ?n\<rparr>"
  have h1: "err ?it = None" and h2: "\<not> atend ?it"
    by (simp_all add: exThreadIterator_def newStackIterator_def)
  have h3: "advanceRegs ?bi ?it = (fst ?a, fst (snd ?a), fst (snd (snd ?a)), snd (snd (snd ?a)))"
    by simp
  have h4: "newStackframe ?bi (fst ?a) (fst (snd (snd ?a))) (snd (snd (snd ?a))) = (fst ?n, snd ?n)"
    by simp
  have h5: "sigtrampHop ?bi ?it3 = None"
    by (simp add: ex_step_defs ex_regs_defs ex_bi_defs exThreadIterator_def)
  have h6: "(if opts (fst ?n) AND StacktraceSimple = 0 then ?sw ?it3 (fst (snd ?a))
             else Ok (False, ?it3, fst (snd ?a))) = Ok (False, ?it3, fst (snd ?a))"
    by (simp add: ex_step_defs ex_regs_defs ex_bi_defs exThreadIterator_def)
  have h7: "Ret (frame ?it3) = 0"
    by (simp add: ex_step_defs ex_regs_defs ex_bi_defs exThreadIterator_def)
  have h8: "err ?it3 = None"
    by (simp add: ex_step_defs ex_regs_defs ex_bi_defs exThreadIterator_def)
  have "appendInlineCalls ?bi (appendFrameUpTo 10) (fst (Frame (?it3\<lparr>atend := True\<rparr>))) []
           (snd (Frame (?it3\<lparr>atend := True\<rparr>))) \<noteq> Panic"
    by (simp add: ex_step_defs ex_regs_defs ex_bi_defs exThreadIterator_def)
  then obtain it6 frames' again where
    h9: "appendInlineCalls ?bi (appendFrameUpTo 10) (fst (Frame (?it3\<lparr>atend := True\<rparr>))) []
           (snd (Frame (?it3\<lparr>atend := True\<rparr>))) = Ok (it6, frames', again)"
    by (metis outcome.exhaust prod_cases3)
  show ?thesis
    using stacktraceLoop_ret_zero
      [where bi = ?bi and sw = ?sw and it = ?it and fuel = 0 and depth = 10 and sofar = "[]",
        OF h1 h2 h3 h4 h5 h6 h7 h8 h9]
    by blast
qed

end
